theory Spec2Isabelle
  imports Main "HOL-Library.Code_Target_Nat"
begin

section \<open>Values\<close>

text \<open>
  The in-memory values that descriptors inspect. A function value is seen only through
  the three properties that \<open>getFunctionName\<close> reads and its source text (what
  \<open>String(f)\<close> returns). The numbers of the model are the integers and \<open>NaN\<close>;
  fractions and the infinities are not values of the model, and an integer that
  no double holds exactly stands for no JavaScript value. An object is the list of
  its own enumerable properties in enumeration order. Prototypes are not
  modelled: a property read sees own properties only, and no key of an object or
  of a \<open>props\<close> map is taken to shadow a method that the source calls on it
  (\<open>hasOwnProperty\<close>) or to be \<open>__proto__\<close>. A container is identified with its
  content: two containers with the same content are the same value, so \<open>a === b\<close>
  on containers is equality of content. What \<open>validate\<close> writes into its input is
  therefore not visible in this model; the sections on the store model it for
  \<open>array\<close> and for a union over members with effects.
\<close>

record fn_info =
  displayName :: string
  fn_name :: string
  fn_length :: nat
  fn_source :: string

datatype val =
    VUndefined
  | VNull
  | VBool bool
  | VNum int
  | VNaN
  | VStr string
  | VFun fn_info
  | VArr "val list"
  | VObj "(string \<times> val) list"

text \<open>\<open>a === b\<close> and \<open>a !== b\<close>: \<open>NaN\<close> is not equal to itself.\<close>

definition strict_eq :: "val \<Rightarrow> val \<Rightarrow> bool" where
  "strict_eq a b = (a = b \<and> a \<noteq> VNaN)"

definition strict_neq :: "val \<Rightarrow> val \<Rightarrow> bool" where
  "strict_neq a b = (\<not> strict_eq a b)"

text \<open>\<open>String(i)\<close> for an array index or a branch index.\<close>

definition digit_char :: "nat \<Rightarrow> char" where
  "digit_char d = ''0123456789'' ! d"

fun String_nat :: "nat \<Rightarrow> string" where
  "String_nat n = (if n < 10 then [digit_char n] else String_nat (n div 10) @ [digit_char (n mod 10)])"

declare String_nat.simps [simp del]

text \<open>\<open>xs.join(sep)\<close>\<close>

fun join :: "string \<Rightarrow> string list \<Rightarrow> string" where
  "join sep [] = []"
| "join sep [x] = x"
| "join sep (x # y # ys) = x @ sep @ join sep (y # ys)"

section \<open>The error model\<close>

text \<open>
  \<open>VError\<close>: value, key, type, children. The \<open>type\<close> field holds a decoder; reporters
  and tests read only its \<open>name\<close>, and the model stores that name. The type
  parameter is the kind of value the node records.
\<close>

datatype 'v verror =
  VError (err_value: 'v) (err_key: string) (err_type: string) (children: "'v verror list")

type_synonym 'v validation_of = "'v verror + 'v"
type_synonym VErrors = "val verror list"
type_synonym Validation = "val verror + val"

text \<open>What the code throws.\<close>

datatype js_error = TypeError | CannotSerializeNever | IllTyped

definition failureError :: "'v \<Rightarrow> string \<Rightarrow> string \<Rightarrow> 'v verror list \<Rightarrow> 'v verror" where
  "failureError v k t cs = VError v k t cs"

definition failure :: "'v \<Rightarrow> string \<Rightarrow> string \<Rightarrow> 'v verror list \<Rightarrow> 'v verror + 'v" where
  "failure v k t cs = Inl (VError v k t cs)"

definition failures :: "'v \<Rightarrow> string \<Rightarrow> string \<Rightarrow> 'v verror list \<Rightarrow> 'v verror + 'v" where
  "failures v k t errors = failure v k t errors"

definition success :: "'v \<Rightarrow> 'v verror + 'v" where
  "success v = Inr v"

definition isLeft :: "'e + 'a \<Rightarrow> bool" where
  "isLeft v = (case v of Inl _ \<Rightarrow> True | Inr _ \<Rightarrow> False)"

definition chain :: "'e + 'a \<Rightarrow> ('a \<Rightarrow> 'e + 'b) \<Rightarrow> 'e + 'b" where
  "chain v f = (case v of Inl e \<Rightarrow> Inl e | Inr a \<Rightarrow> f a)"

section \<open>The path reporter\<close>

record ContextEntry =
  ce_key :: string
  ce_type :: string

type_synonym Context = "ContextEntry list"

record ValidationError =
  ve_value :: val
  ve_context :: Context

definition getFunctionName :: "fn_info \<Rightarrow> string" where
  "getFunctionName f =
     (if displayName f \<noteq> [] then displayName f
      else if fn_name f \<noteq> [] then fn_name f
      else ''<function'' @ String_nat (fn_length f) @ ''>'')"

text \<open>
  \<open>JSON.stringify\<close> belongs to the host, not to the repository: \<open>js v\<close> stands for the
  text that the message template shows for \<open>JSON.stringify(v)\<close>, and the reporter
  takes it as a parameter.
\<close>

definition stringify :: "(val \<Rightarrow> string) \<Rightarrow> val \<Rightarrow> string" where
  "stringify js v = (case v of VFun f \<Rightarrow> getFunctionName f | _ \<Rightarrow> js v)"

definition getContextPath :: "Context \<Rightarrow> string" where
  "getContextPath context = join ''/'' (map (\<lambda>e. ce_key e @ '': '' @ ce_type e) context)"

definition getMessage :: "(val \<Rightarrow> string) \<Rightarrow> val \<Rightarrow> Context \<Rightarrow> string" where
  "getMessage js v context =
     ''Invalid value '' @ stringify js v @ '' supplied to '' @ getContextPath context"

definition PathReporter_failure :: "(val \<Rightarrow> string) \<Rightarrow> ValidationError list \<Rightarrow> string list" where
  "PathReporter_failure js es = map (\<lambda>e. getMessage js (ve_value e) (ve_context e)) es"

definition PathReporter_success :: "string list" where
  "PathReporter_success = [''No errors!'']"

fun convertError :: "val verror \<Rightarrow> ValidationError list" where
  "convertError (VError v k t cs) =
     (if length cs > 0
      then concat (map (\<lambda>child.
             map (\<lambda>error. \<lparr>ve_value = ve_value error,
                            ve_context = \<lparr>ce_key = k, ce_type = t\<rparr> # ve_context error\<rparr>)
                 (convertError child)) cs)
      else [\<lparr>ve_value = v, ve_context = [\<lparr>ce_key = k, ce_type = t\<rparr>]\<rparr>])"

text \<open>
  \<open>report\<close> calls \<open>validation.fold(compose(failure, convertError), success)\<close>. A
  failure is a \<open>Left\<close>, which has the method; a success is the bare value, which has
  no method \<open>fold\<close>, so the call throws a TypeError and \<open>success\<close> is not reached.
\<close>

definition PathReporter_report :: "(val \<Rightarrow> string) \<Rightarrow> Validation \<Rightarrow> js_error + string list" where
  "PathReporter_report js validation =
     (case validation of
        Inl e \<Rightarrow> Inr (PathReporter_failure js (convertError e))
      | Inr _ \<Rightarrow> Inl TypeError)"

text \<open>
  The error tree as the specification reads it: a node without children is a leaf; the
  leaves of a node with children are the leaves of its children, from left to right,
  each with the node's own \<open>(key, name)\<close> pair put in front of its path.
\<close>

fun leaf_count :: "val verror \<Rightarrow> nat" where
  "leaf_count (VError v k t cs) = (if cs = [] then 1 else sum_list (map leaf_count cs))"

fun leaf_paths :: "val verror \<Rightarrow> (val \<times> (string \<times> string) list) list" where
  "leaf_paths (VError v k t cs) =
     (if cs = [] then [(v, [(k, t)])]
      else concat (map (\<lambda>c. map (\<lambda>(w, p). (w, (k, t) # p)) (leaf_paths c)) cs))"

text \<open>
  The text of a leaf, written out on its own: the path is the pairs \<open>key: name\<close> with
  \<open>/\<close> between them; a function is shown by its display name, else by its name,
  else as \<open><functionN>\<close> with its number of parameters; any other value by its JSON
  text.
\<close>

fun path_text :: "(string \<times> string) list \<Rightarrow> string" where
  "path_text [] = []"
| "path_text [(k, n)] = k @ '': '' @ n"
| "path_text ((k, n) # q # qs) = k @ '': '' @ n @ ''/'' @ path_text (q # qs)"

definition name_of_function :: "fn_info \<Rightarrow> string" where
  "name_of_function f =
     (case displayName f of
        [] \<Rightarrow> (case fn_name f of
                 [] \<Rightarrow> ''<function'' @ String_nat (fn_length f) @ ''>''
               | c # cs \<Rightarrow> c # cs)
      | c # cs \<Rightarrow> c # cs)"

definition leaf_message :: "(val \<Rightarrow> string) \<Rightarrow> val \<times> (string \<times> string) list \<Rightarrow> string" where
  "leaf_message js l =
     ''Invalid value '' @ (case fst l of VFun f \<Rightarrow> name_of_function f | w \<Rightarrow> js w)
       @ '' supplied to '' @ path_text (snd l)"

section \<open>Property access on values\<close>

text \<open>\<open>m !== null && typeof m === 'object'\<close>: arrays and objects.\<close>

definition object_kind :: "val \<Rightarrow> bool" where
  "object_kind m = (case m of VArr _ \<Rightarrow> True | VObj _ \<Rightarrow> True | _ \<Rightarrow> False)"

text \<open>
  \<open>xs[i]\<close> for a number \<open>i\<close>: \<open>undefined\<close> beyond the end. \<open>xs[i] = v\<close> beyond the end
  extends the array; the holes that JavaScript leaves read as \<open>undefined\<close> and are
  stored so.
\<close>

definition arr_get :: "val list \<Rightarrow> nat \<Rightarrow> val" where
  "arr_get xs i = (if i < length xs then xs ! i else VUndefined)"

definition arr_set :: "val list \<Rightarrow> nat \<Rightarrow> val \<Rightarrow> val list" where
  "arr_set xs i v =
     (if i < length xs then xs[i := v] else xs @ replicate (i - length xs) VUndefined @ [v])"

text \<open>
  \<open>o[k]\<close> for a string \<open>k\<close>, on a container: an own property, \<open>undefined\<close> when there
  is none. An array has its indices, written in decimal, and \<open>length\<close>. The source
  reads properties of containers only (after \<open>Dictionary.is\<close> or \<open>Array.isArray\<close>).
\<close>

definition get_prop :: "val \<Rightarrow> string \<Rightarrow> val" where
  "get_prop m k =
     (case m of
        VObj kvs \<Rightarrow> (case map_of kvs k of Some v \<Rightarrow> v | None \<Rightarrow> VUndefined)
      | VArr xs \<Rightarrow>
          (if k = ''length'' then VNum (int (length xs))
           else (case find (\<lambda>i. String_nat i = k) [0..<length xs] of
                   Some i \<Rightarrow> xs ! i
                 | None \<Rightarrow> VUndefined))
      | _ \<Rightarrow> VUndefined)"

text \<open>\<open>Object.keys(m)\<close> and the keys that \<open>for (k in m)\<close> visits.\<close>

definition Object_keys :: "val \<Rightarrow> string list" where
  "Object_keys m =
     (case m of
        VObj kvs \<Rightarrow> map fst kvs
      | VArr xs \<Rightarrow> map String_nat [0..<length xs]
      | _ \<Rightarrow> [])"

text \<open>\<open>Object.getOwnPropertyNames(m)\<close>: an array also owns \<open>length\<close>.\<close>

definition getOwnPropertyNames :: "val \<Rightarrow> string list" where
  "getOwnPropertyNames m =
     (case m of
        VObj kvs \<Rightarrow> map fst kvs
      | VArr xs \<Rightarrow> map String_nat [0..<length xs] @ [''length'']
      | _ \<Rightarrow> [])"

text \<open>
  The enumeration order of a plain object: the keys that are array indices (the
  decimal text, without leading zeros, of a number below \<open>2^32 - 1\<close>) in
  ascending order, then the other keys in the order of their creation.
\<close>

definition digit_value :: "char \<Rightarrow> nat option" where
  "digit_value c =
     map_of [(CHR ''0'', 0), (CHR ''1'', 1), (CHR ''2'', 2), (CHR ''3'', 3), (CHR ''4'', 4),
             (CHR ''5'', 5), (CHR ''6'', 6), (CHR ''7'', 7), (CHR ''8'', 8), (CHR ''9'', 9)] c"

fun digits_value :: "string \<Rightarrow> nat \<Rightarrow> nat option" where
  "digits_value [] acc = Some acc"
| "digits_value (c # cs) acc =
     (case digit_value c of None \<Rightarrow> None | Some d \<Rightarrow> digits_value cs (10 * acc + d))"

definition array_index :: "string \<Rightarrow> nat option" where
  "array_index k =
     (if k = [] \<or> (hd k = CHR ''0'' \<and> tl k \<noteq> []) then None
      else (case digits_value k 0 of
              None \<Rightarrow> None
            | Some n \<Rightarrow> if n < 4294967295 then Some n else None))"

definition enumerated_before :: "string \<Rightarrow> string \<Rightarrow> bool" where
  "enumerated_before k k' =
     (case array_index k of
        None \<Rightarrow> False
      | Some i \<Rightarrow> (case array_index k' of None \<Rightarrow> True | Some j \<Rightarrow> i < j))"

text \<open>
  \<open>s[k] = v\<close> on a plain object: an existing property keeps its place; a new one
  takes its place in the enumeration order.
\<close>

fun obj_insert :: "(string \<times> 'a) list \<Rightarrow> string \<Rightarrow> 'a \<Rightarrow> (string \<times> 'a) list" where
  "obj_insert [] k v = [(k, v)]"
| "obj_insert (p # kvs) k v =
     (if enumerated_before k (fst p) then (k, v) # p # kvs else p # obj_insert kvs k v)"

definition obj_set :: "(string \<times> 'a) list \<Rightarrow> string \<Rightarrow> 'a \<Rightarrow> (string \<times> 'a) list" where
  "obj_set kvs k v =
     (if k \<in> set (map fst kvs) then map (\<lambda>p. if fst p = k then (k, v) else p) kvs
      else obj_insert kvs k v)"

text \<open>\<open>{ ...o }\<close>: the own enumerable properties in a new plain object.\<close>

definition spread :: "val \<Rightarrow> (string \<times> val) list" where
  "spread m =
     (case m of
        VObj kvs \<Rightarrow> kvs
      | VArr xs \<Rightarrow> zip (map String_nat [0..<length xs]) xs
      | _ \<Rightarrow> [])"

text \<open>\<open>String(v)\<close>, which also turns a value into a property key.\<close>

text \<open>
  A number below \<open>10^21\<close> in magnitude is written in decimal, a larger one with
  an exponent: the first digit, the further digits up to the last that is not
  zero after a point, \<open>e+\<close> and the number of digits after the first.
\<close>

definition strip_zeros :: "string \<Rightarrow> string" where
  "strip_zeros ds = rev (dropWhile (\<lambda>c. c = CHR ''0'') (rev ds))"

definition String_int :: "int \<Rightarrow> string" where
  "String_int n =
     (let ds = String_nat (nat \<bar>n\<bar>);
          sign = (if n < 0 then ''-'' else [])
      in if \<bar>n\<bar> < 1000000000000000000000 then sign @ ds
         else (let sig = strip_zeros ds
               in sign @ [hd sig] @ (if tl sig = [] then [] else ''.'' @ tl sig)
                    @ ''e+'' @ String_nat (length ds - 1)))"

fun String_val :: "val \<Rightarrow> string" where
  "String_val (VStr s) = s"
| "String_val (VNum n) = String_int n"
| "String_val (VBool b) = (if b then ''true'' else ''false'')"
| "String_val VNaN = ''NaN''"
| "String_val VUndefined = ''undefined''"
| "String_val VNull = ''null''"
| "String_val (VFun f) = fn_source f"
| "String_val (VObj kvs) = ''[object Object]''"
| "String_val (VArr xs) =
     join '','' (map (\<lambda>x. case x of VNull \<Rightarrow> [] | VUndefined \<Rightarrow> [] | _ \<Rightarrow> String_val x) xs)"

section \<open>Descriptors\<close>

text \<open>
  One constructor for each class of descriptor in the source. A constructor holds what
  the closures of that descriptor capture: the name, the member descriptors, and
  for \<open>partial\<close>, \<open>strict\<close>, \<open>readonlyArray\<close> and \<open>taggedUnion\<close> also the inner
  descriptor or the tables that the constructor function computes once (\<open>partial\<close>,
  \<open>loose\<close>, \<open>arrayType\<close>, \<open>tagValue2Index\<close> and \<open>TagValue\<close>). \<open>Type\<close> is a descriptor
  made with \<open>new Type(name, is, validate, encode)\<close>; its encoder is \<open>None\<close> when
  it is the function \<open>identity\<close> itself. A decoder passed to \<open>validate\<close> is
  represented by its name, a key by its text \<open>String(c)\<close>.
\<close>

datatype ty =
    NullType
  | UndefinedType
  | AnyType
  | NeverType
  | StringType
  | NumberType
  | BooleanType
  | AnyArrayType
  | AnyDictionaryType
  | ObjectType
  | FunctionType
  | Type string "val \<Rightarrow> bool" "val \<Rightarrow> string \<Rightarrow> string \<Rightarrow> val verror + val"
      "(val \<Rightarrow> js_error + val) option"
  | RefinementType string ty "val \<Rightarrow> bool"
  | LiteralType string val
  | KeyofType string "(string \<times> val) list"
  | ArrayType string ty
  | InterfaceType string "(string \<times> ty) list"
  | PartialType string "(string \<times> ty) list" ty
  | DictionaryType string ty ty
  | UnionType string "ty list"
  | IntersectionType string "ty list"
  | TupleType string "ty list"
  | ReadonlyType string ty
  | ReadonlyArrayType string ty ty
  | StrictType string "(string \<times> ty) list" ty
  | TaggedUnionType string string "ty list" "(string \<times> nat) list" ty

fun name :: "ty \<Rightarrow> string" where
  "name NullType = ''null''"
| "name UndefinedType = ''undefined''"
| "name AnyType = ''any''"
| "name NeverType = ''never''"
| "name StringType = ''string''"
| "name NumberType = ''number''"
| "name BooleanType = ''boolean''"
| "name AnyArrayType = ''Array''"
| "name AnyDictionaryType = ''Dictionary''"
| "name ObjectType = ''object''"
| "name FunctionType = ''Function''"
| "name (Type n i v e) = n"
| "name (RefinementType n t p) = n"
| "name (LiteralType n v) = n"
| "name (KeyofType n keys) = n"
| "name (ArrayType n t) = n"
| "name (InterfaceType n props) = n"
| "name (PartialType n props partial) = n"
| "name (DictionaryType n d c) = n"
| "name (UnionType n ts) = n"
| "name (IntersectionType n ts) = n"
| "name (TupleType n ts) = n"
| "name (ReadonlyType n t) = n"
| "name (ReadonlyArrayType n t arrayType) = n"
| "name (StrictType n props loose) = n"
| "name (TaggedUnionType n tag ts tagValue2Index TagValue) = n"

text \<open>
  \<open>types[tagValue2Index[tagValue]]\<close> in a tagged union. It is \<open>None\<close> where the
  source would read a property of \<open>undefined\<close>; that does not happen for the tables
  that \<open>taggedUnion\<close> builds.
\<close>

definition member_at :: "ty list \<Rightarrow> (string \<times> nat) list \<Rightarrow> val \<Rightarrow> ty option" where
  "member_at types tagValue2Index tagValue =
     (case map_of tagValue2Index (String_val tagValue) of
        None \<Rightarrow> None
      | Some i \<Rightarrow> if i < length types then Some (types ! i) else None)"

lemma member_at_in_set: "member_at types tagValue2Index tagValue = Some t \<Longrightarrow> t \<in> set types"
  by (auto simp: member_at_def split: option.splits if_splits)

subsection \<open>The type guard\<close>

function (sequential) is_ty :: "ty \<Rightarrow> val \<Rightarrow> bool" where
  "is_ty NullType m = (m = VNull)"
| "is_ty UndefinedType m = (m = VUndefined)"
| "is_ty AnyType m = True"
| "is_ty NeverType m = False"
| "is_ty StringType m = (case m of VStr _ \<Rightarrow> True | _ \<Rightarrow> False)"
| "is_ty NumberType m = (case m of VNum _ \<Rightarrow> True | VNaN \<Rightarrow> True | _ \<Rightarrow> False)"
| "is_ty BooleanType m = (case m of VBool _ \<Rightarrow> True | _ \<Rightarrow> False)"
| "is_ty AnyArrayType m = (case m of VArr _ \<Rightarrow> True | _ \<Rightarrow> False)"
| "is_ty AnyDictionaryType m = object_kind m"
| "is_ty ObjectType m = object_kind m"
| "is_ty FunctionType m = (case m of VFun _ \<Rightarrow> True | _ \<Rightarrow> False)"
| "is_ty (Type n i v e) m = i m"
| "is_ty (RefinementType n t predicate) m = (is_ty t m \<and> predicate m)"
| "is_ty (LiteralType n v) m = strict_eq m v"
| "is_ty (KeyofType n keys) m = (case m of VStr s \<Rightarrow> s \<in> set (map fst keys) | _ \<Rightarrow> False)"
| "is_ty (ArrayType n t) m = (case m of VArr xs \<Rightarrow> list_all (is_ty t) xs | _ \<Rightarrow> False)"
| "is_ty (InterfaceType n props) m =
     (if \<not> object_kind m then False
      else list_all (\<lambda>p. is_ty (snd p) (get_prop m (fst p))) props)"
| "is_ty (PartialType n props partial) m = is_ty partial m"
| "is_ty (DictionaryType n domain codomain) m =
     (object_kind m
      \<and> list_all (\<lambda>k. is_ty domain (VStr k) \<and> is_ty codomain (get_prop m k)) (Object_keys m))"
| "is_ty (UnionType n types) m = list_ex (\<lambda>t. is_ty t m) types"
| "is_ty (IntersectionType n types) m = list_all (\<lambda>t. is_ty t m) types"
| "is_ty (TupleType n types) m =
     (case m of
        VArr xs \<Rightarrow> length xs = length types \<and> list_all2 (\<lambda>t x. is_ty t x) types xs
      | _ \<Rightarrow> False)"
| "is_ty (ReadonlyType n t) m = is_ty t m"
| "is_ty (ReadonlyArrayType n t arrayType) m = is_ty arrayType m"
| "is_ty (StrictType n props loose) m =
     (is_ty loose m \<and> list_all (\<lambda>k. k \<in> set (map fst props)) (getOwnPropertyNames m))"
| "is_ty (TaggedUnionType n tag types tagValue2Index TagValue) v =
     (if \<not> object_kind v then False
      else let tagValue = get_prop v tag
           in is_ty TagValue tagValue
              \<and> (case member_at types tagValue2Index tagValue of
                    Some t \<Rightarrow> is_ty t v
                  | None \<Rightarrow> False))"
  by pat_completeness auto

lemma size_member_at:
  "member_at types tagValue2Index tagValue = Some t \<Longrightarrow> size t < Suc (size_list size types)"
  using member_at_in_set [of types tagValue2Index tagValue t]
  by (simp add: less_Suc_eq_le size_list_estimation')

lemma size_list_member_le: "x \<in> set xs \<Longrightarrow> size x \<le> size_list size xs + k"
  using size_list_estimation' [of x xs "size x" size] by simp

lemma size_prop_member: "p \<in> set props \<Longrightarrow> size (snd p) < Suc (size_list (size_prod (\<lambda>_. 0) size) props)"
  by (cases p) (auto simp: less_Suc_eq_le intro: size_list_estimation')

termination is_ty
  by (relation "measure (\<lambda>p. size (fst p))")
     (auto simp: less_Suc_eq_le size_list_estimation' dest: size_member_at size_prop_member)

subsection \<open>The loops of the validators\<close>

text \<open>
  Each loop of a \<open>validate\<close> closure is a recursive function over what the loop runs
  through; the call of a member's \<open>validate\<close> is the parameter \<open>f\<close>. Errors are
  pushed at the end of \<open>errors\<close>. The loops give the value that the source returns.
  The loop of \<open>array\<close> in the source also writes \<open>a[i] = validation\<close> into the array
  that it was given (its test before the copy never holds); values do not change,
  so that write is not part of \<open>array_loop\<close>: \<open>array_loop_ref\<close> has it. In
  \<open>strict_loop\<close>, \<open>props.hasOwnProperty(key)\<close> is membership of \<open>key\<close> among the keys
  of \<open>props\<close>.
\<close>

definition guard :: "(val \<Rightarrow> bool) \<Rightarrow> val \<Rightarrow> string \<Rightarrow> string \<Rightarrow> Validation" where
  "guard p m c decoder = (if p m then Inr m else failure m c decoder [])"

definition Object_freeze :: "val \<Rightarrow> val" where
  "Object_freeze v = v"

fun array_loop ::
  "(val \<Rightarrow> nat \<Rightarrow> Validation) \<Rightarrow> val list \<Rightarrow> nat \<Rightarrow> val list \<Rightarrow> VErrors \<Rightarrow> val list \<times> VErrors" where
  "array_loop f [] i a errors = (a, errors)"
| "array_loop f (x # xs) i a errors =
     (case f x i of
        Inl e \<Rightarrow> array_loop f xs (Suc i) a (errors @ [e])
      | Inr validation \<Rightarrow>
          array_loop f xs (Suc i) (if strict_neq validation x then arr_set a i validation else a) errors)"

fun interface_loop ::
  "(ty \<Rightarrow> val \<Rightarrow> string \<Rightarrow> Validation) \<Rightarrow> (string \<times> ty) list \<Rightarrow> val
     \<Rightarrow> (string \<times> val) list option \<Rightarrow> VErrors \<Rightarrow> (string \<times> val) list option \<times> VErrors" where
  "interface_loop f [] o' a errors = (a, errors)"
| "interface_loop f (p # ps) o' a errors =
     (let k = fst p; type = snd p; ok = get_prop o' k
      in case f type ok k of
           Inl e \<Rightarrow> interface_loop f ps o' a (errors @ [e])
         | Inr validation \<Rightarrow>
             if strict_neq validation ok
             then interface_loop f ps o'
                    (Some (obj_set (case a of None \<Rightarrow> spread o' | Some s \<Rightarrow> s) k validation)) errors
             else interface_loop f ps o' a errors)"

fun dictionary_loop ::
  "(val \<Rightarrow> string \<Rightarrow> Validation) \<Rightarrow> (val \<Rightarrow> string \<Rightarrow> Validation) \<Rightarrow> string list \<Rightarrow> val
     \<Rightarrow> (string \<times> val) list \<Rightarrow> bool \<Rightarrow> VErrors \<Rightarrow> (string \<times> val) list \<times> bool \<times> VErrors" where
  "dictionary_loop fd fc [] o' a changed errors = (a, changed, errors)"
| "dictionary_loop fd fc (k # ks) o' a changed errors =
     (let ok = get_prop o' k;
          domainValidation = fd (VStr k) k;
          codomainValidation = fc ok k;
          errors1 = (case domainValidation of Inl e \<Rightarrow> errors @ [e] | Inr vk \<Rightarrow> errors);
          changed1 = (case domainValidation of Inl e \<Rightarrow> changed | Inr vk \<Rightarrow> changed \<or> strict_neq vk (VStr k));
          k1 = (case domainValidation of Inl e \<Rightarrow> VStr k | Inr vk \<Rightarrow> vk)
      in case codomainValidation of
           Inl e \<Rightarrow> dictionary_loop fd fc ks o' a changed1 (errors1 @ [e])
         | Inr vok \<Rightarrow>
             dictionary_loop fd fc ks o' (obj_set a (String_val k1) vok) (changed1 \<or> strict_neq vok ok) errors1)"

fun union_loop :: "(ty \<Rightarrow> nat \<Rightarrow> Validation) \<Rightarrow> ty list \<Rightarrow> nat \<Rightarrow> VErrors \<Rightarrow> VErrors + val" where
  "union_loop f [] i errors = Inl errors"
| "union_loop f (type # types) i errors =
     (case f type i of
        Inl e \<Rightarrow> union_loop f types (Suc i) (errors @ [e])
      | Inr validation \<Rightarrow> Inr validation)"

fun intersection_loop ::
  "(ty \<Rightarrow> val \<Rightarrow> nat \<Rightarrow> Validation) \<Rightarrow> ty list \<Rightarrow> nat \<Rightarrow> val \<Rightarrow> VErrors \<Rightarrow> val \<times> VErrors" where
  "intersection_loop f [] i a errors = (a, errors)"
| "intersection_loop f (type # types) i a errors =
     (case f type a i of
        Inl e \<Rightarrow> intersection_loop f types (Suc i) a (errors @ children e)
      | Inr validation \<Rightarrow> intersection_loop f types (Suc i) validation errors)"

fun tuple_loop ::
  "(ty \<Rightarrow> val \<Rightarrow> nat \<Rightarrow> Validation) \<Rightarrow> ty list \<Rightarrow> nat \<Rightarrow> val list \<Rightarrow> val list \<Rightarrow> VErrors
     \<Rightarrow> val list \<times> VErrors" where
  "tuple_loop f [] i as t errors = (t, errors)"
| "tuple_loop f (type # types) i as t errors =
     (let a = arr_get as i
      in case f type a i of
           Inl e \<Rightarrow> tuple_loop f types (Suc i) as t (errors @ [e])
         | Inr validation \<Rightarrow>
             tuple_loop f types (Suc i) as (if strict_neq validation a then arr_set t i validation else t) errors)"

fun strict_loop :: "string list \<Rightarrow> (string \<times> ty) list \<Rightarrow> val \<Rightarrow> VErrors \<Rightarrow> VErrors" where
  "strict_loop [] props o' errors = errors"
| "strict_loop (key # keys) props o' errors =
     (if key \<notin> set (map fst props)
      then strict_loop keys props o' (errors @ [failureError (get_prop o' key) key ''never'' []])
      else strict_loop keys props o' errors)"

lemma interface_loop_cong [fundef_cong]:
  "ps = ps' \<Longrightarrow> o1 = o2 \<Longrightarrow> a = a' \<Longrightarrow> errors = errors'
   \<Longrightarrow> (\<And>p x k. p \<in> set ps' \<Longrightarrow> f (snd p) x k = g (snd p) x k)
   \<Longrightarrow> interface_loop f ps o1 a errors = interface_loop g ps' o2 a' errors'"
  by (induction ps' arbitrary: ps a a' errors errors') (auto simp: Let_def split: sum.splits)

lemma union_loop_cong [fundef_cong]:
  "ts = ts' \<Longrightarrow> i = i' \<Longrightarrow> errors = errors'
   \<Longrightarrow> (\<And>t j. t \<in> set ts' \<Longrightarrow> f t j = g t j)
   \<Longrightarrow> union_loop f ts i errors = union_loop g ts' i' errors'"
  by (induction ts' arbitrary: ts i i' errors errors') (auto split: sum.splits)

lemma intersection_loop_cong [fundef_cong]:
  "ts = ts' \<Longrightarrow> i = i' \<Longrightarrow> a = a' \<Longrightarrow> errors = errors'
   \<Longrightarrow> (\<And>t x j. t \<in> set ts' \<Longrightarrow> f t x j = g t x j)
   \<Longrightarrow> intersection_loop f ts i a errors = intersection_loop g ts' i' a' errors'"
  by (induction ts' arbitrary: ts i i' a a' errors errors') (auto split: sum.splits)

lemma tuple_loop_cong [fundef_cong]:
  "ts = ts' \<Longrightarrow> i = i' \<Longrightarrow> as = as' \<Longrightarrow> t = t' \<Longrightarrow> errors = errors'
   \<Longrightarrow> (\<And>ty x j. ty \<in> set ts' \<Longrightarrow> f ty x j = g ty x j)
   \<Longrightarrow> tuple_loop f ts i as t errors = tuple_loop g ts' i' as' t' errors'"
  by (induction ts' arbitrary: ts i i' t t' errors errors') (auto simp: Let_def split: sum.splits)

subsection \<open>validate\<close>

text \<open>
  \<open>validate t m c decoder\<close> is \<open>t.validate(m, c, decoder)\<close>. \<open>type.validate(x, k, type)\<close>
  is \<open>validate type x k (name type)\<close>. In the last equation the branch \<open>None\<close> stands
  for a read of \<open>types[i]\<close> that gives \<open>undefined\<close>, where JavaScript throws a
  TypeError; it is not reached by a descriptor that \<open>taggedUnion\<close> returns.
\<close>

function (sequential) validate :: "ty \<Rightarrow> val \<Rightarrow> string \<Rightarrow> string \<Rightarrow> Validation" where
  "validate (Type n i v e) m c decoder = v m c decoder"
| "validate AnyType m c decoder = success m"
| "validate NeverType m c decoder = failure m c decoder []"
| "validate ObjectType m c decoder = guard (is_ty AnyDictionaryType) m c decoder"
| "validate (RefinementType n type predicate) i c decoder =
     (case validate type i c decoder of
        Inl e \<Rightarrow> Inl e
      | Inr validation \<Rightarrow>
          if predicate validation then Inr validation else failure validation c decoder [])"
| "validate (LiteralType n v) m c decoder =
     (if is_ty (LiteralType n v) m then Inr v else failure m c decoder [])"
| "validate (ArrayType n type) m c decoder =
     (case guard (is_ty AnyArrayType) m c decoder of
        Inl e \<Rightarrow> Inl e
      | Inr arrayValidation \<Rightarrow>
          (case arrayValidation of
             VArr xs \<Rightarrow>
               (case array_loop (\<lambda>x i. validate type x (String_nat i) (name type)) xs 0 xs [] of
                  (a, errors) \<Rightarrow> if errors \<noteq> [] then failures m c decoder errors else Inr (VArr a))
           | _ \<Rightarrow> Inr arrayValidation))"
| "validate (InterfaceType n props) m c decoder =
     (case guard (is_ty AnyDictionaryType) m c decoder of
        Inl e \<Rightarrow> Inl e
      | Inr o' \<Rightarrow>
          (case interface_loop (\<lambda>type ok k. validate type ok k (name type)) props o' None [] of
             (a, errors) \<Rightarrow>
               if errors \<noteq> [] then failures m c decoder errors
               else Inr (case a of None \<Rightarrow> o' | Some s \<Rightarrow> VObj s)))"
| "validate (PartialType n props partial) m c decoder = validate partial m c decoder"
| "validate (DictionaryType n domain codomain) m c decoder =
     (case guard (is_ty AnyDictionaryType) m c decoder of
        Inl e \<Rightarrow> Inl e
      | Inr o' \<Rightarrow>
          (case dictionary_loop (\<lambda>k c'. validate domain k c' (name domain))
                  (\<lambda>ok c'. validate codomain ok c' (name codomain)) (Object_keys o') o' [] False [] of
             (a, changed, errors) \<Rightarrow>
               if errors \<noteq> [] then failures m c decoder errors
               else Inr (if changed then VObj a else o')))"
| "validate (UnionType n types) m c decoder =
     (case union_loop (\<lambda>type i. validate type m (String_nat i) (name type)) types 0 [] of
        Inr validation \<Rightarrow> Inr validation
      | Inl errors \<Rightarrow> failures m c decoder errors)"
| "validate (IntersectionType n types) m c decoder =
     (case intersection_loop (\<lambda>type a i. validate type a (String_nat i) (name type)) types 0 m [] of
        (a, errors) \<Rightarrow> if errors \<noteq> [] then failures m c decoder errors else Inr a)"
| "validate (TupleType n types) m c decoder =
     (case guard (is_ty AnyArrayType) m c (name AnyArrayType) of
        Inl e \<Rightarrow> Inl e
      | Inr arrayValidation \<Rightarrow>
          (case arrayValidation of
             VArr as \<Rightarrow>
               (case tuple_loop (\<lambda>type a i. validate type a (String_nat i) (name type)) types 0 as as [] of
                  (t, errors) \<Rightarrow>
                    (let len = length types;
                         errors' = (if length as > len
                                    then errors @ [failureError (arr_get as len) (String_nat len) (name NeverType) []]
                                    else errors)
                     in if errors' \<noteq> [] then failures m c decoder errors' else Inr (VArr t)))
           | _ \<Rightarrow> Inr arrayValidation))"
| "validate (ReadonlyType n type) m c decoder =
     (case validate type m c decoder of
        Inl e \<Rightarrow> Inl e
      | Inr res \<Rightarrow> Inr (Object_freeze res))"
| "validate (ReadonlyArrayType n type arrayType) m c decoder =
     (case validate arrayType m c decoder of
        Inl e \<Rightarrow> Inl e
      | Inr res \<Rightarrow> Inr (Object_freeze res))"
| "validate (StrictType n props loose) m c decoder =
     (case validate loose m c (name loose) of
        Inl e \<Rightarrow> Inl e
      | Inr o' \<Rightarrow>
          (let keys = getOwnPropertyNames o';
               errors = strict_loop keys props o' []
           in if errors \<noteq> [] then failures m [] decoder errors else Inr o'))"
| "validate (TaggedUnionType n tag types tagValue2Index TagValue) s c decoder =
     (case guard (is_ty AnyDictionaryType) s c decoder of
        Inl e \<Rightarrow> Inl e
      | Inr d \<Rightarrow>
          (case validate TagValue (get_prop d tag) tag (name TagValue) of
             Inl e \<Rightarrow> failure (get_prop d tag) '' '' decoder [e]
           | Inr tagValue \<Rightarrow>
               (case member_at types tagValue2Index tagValue of
                  Some type \<Rightarrow> validate type d c (name type)
                | None \<Rightarrow> failure d c ''TypeError'' [])))"
| "validate t m c decoder = guard (is_ty t) m c decoder"
  by pat_completeness auto

termination validate
  by (relation "measure (\<lambda>p. size (fst p))")
     (auto simp: less_Suc_eq_le size_list_estimation' dest: size_member_at size_prop_member)

definition decode :: "ty \<Rightarrow> val \<Rightarrow> Validation" where
  "decode t i = validate t i [] (name t)"

subsection \<open>encode\<close>

text \<open>
  \<open>encode_is_identity t\<close> is the test \<open>t.encode === identity\<close>. \<open>encode\<close> returns
  \<open>Inl\<close> where the encoder throws. An encoder takes a value of the descriptor's
  static type; where that is a container type and the argument is no container, the
  model answers \<open>IllTyped\<close> and says nothing about what JavaScript does with it.
\<close>

function (sequential) encode_is_identity :: "ty \<Rightarrow> bool" where
  "encode_is_identity NeverType = False"
| "encode_is_identity (Type n i v e) = (e = None)"
| "encode_is_identity (RefinementType n type predicate) = encode_is_identity type"
| "encode_is_identity (ArrayType n type) = encode_is_identity type"
| "encode_is_identity (InterfaceType n props) = list_all (\<lambda>p. encode_is_identity (snd p)) props"
| "encode_is_identity (PartialType n props partial) = list_all (\<lambda>p. encode_is_identity (snd p)) props"
| "encode_is_identity (DictionaryType n domain codomain) =
     (encode_is_identity domain \<and> encode_is_identity codomain)"
| "encode_is_identity (UnionType n types) = list_all encode_is_identity types"
| "encode_is_identity (IntersectionType n types) = list_all encode_is_identity types"
| "encode_is_identity (TupleType n types) = list_all encode_is_identity types"
| "encode_is_identity (ReadonlyType n type) = encode_is_identity type"
| "encode_is_identity (ReadonlyArrayType n type arrayType) = encode_is_identity arrayType"
| "encode_is_identity (StrictType n props loose) = encode_is_identity loose"
| "encode_is_identity (TaggedUnionType n tag types tagValue2Index TagValue) =
     list_all encode_is_identity types"
| "encode_is_identity t = True"
  by pat_completeness auto

termination encode_is_identity
  by (relation "measure size")
     (auto simp: less_Suc_eq_le size_list_estimation' size_list_member_le dest: size_prop_member)

fun sequence_sum :: "('e + 'a) list \<Rightarrow> 'e + 'a list" where
  "sequence_sum [] = Inr []"
| "sequence_sum (r # rs) =
     (case r of
        Inl e \<Rightarrow> Inl e
      | Inr x \<Rightarrow> (case sequence_sum rs of Inl e \<Rightarrow> Inl e | Inr xs \<Rightarrow> Inr (x # xs)))"

fun interface_encode_loop ::
  "(ty \<Rightarrow> val \<Rightarrow> js_error + val) \<Rightarrow> (string \<times> ty) list \<Rightarrow> val \<Rightarrow> (string \<times> val) list
     \<Rightarrow> js_error + (string \<times> val) list" where
  "interface_encode_loop f [] a s = Inr s"
| "interface_encode_loop f (p # ps) a s =
     (case f (snd p) (get_prop a (fst p)) of
        Inl e \<Rightarrow> Inl e
      | Inr v \<Rightarrow> interface_encode_loop f ps a (obj_set s (fst p) v))"

fun partial_encode_loop ::
  "(ty \<Rightarrow> val \<Rightarrow> js_error + val) \<Rightarrow> (string \<times> ty) list \<Rightarrow> val \<Rightarrow> (string \<times> val) list
     \<Rightarrow> js_error + (string \<times> val) list" where
  "partial_encode_loop f [] a s = Inr s"
| "partial_encode_loop f (p # ps) a s =
     (let ak = get_prop a (fst p)
      in if strict_neq ak VUndefined
         then (case f (snd p) ak of
                 Inl e \<Rightarrow> Inl e
               | Inr v \<Rightarrow> partial_encode_loop f ps a (obj_set s (fst p) v))
         else partial_encode_loop f ps a s)"

fun dictionary_encode_loop ::
  "(val \<Rightarrow> js_error + val) \<Rightarrow> (val \<Rightarrow> js_error + val) \<Rightarrow> string list \<Rightarrow> val \<Rightarrow> (string \<times> val) list
     \<Rightarrow> js_error + (string \<times> val) list" where
  "dictionary_encode_loop fd fc [] a s = Inr s"
| "dictionary_encode_loop fd fc (k # ks) a s =
     (case fd (VStr k) of
        Inl e \<Rightarrow> Inl e
      | Inr dk \<Rightarrow>
          (case fc (get_prop a k) of
             Inl e \<Rightarrow> Inl e
           | Inr v \<Rightarrow> dictionary_encode_loop fd fc ks a (obj_set s (String_val dk) v)))"

fun union_encode_loop :: "(ty \<Rightarrow> val \<Rightarrow> js_error + val) \<Rightarrow> ty list \<Rightarrow> val \<Rightarrow> js_error + val" where
  "union_encode_loop f [] a = Inl TypeError"
| "union_encode_loop f [type] a = f type a"
| "union_encode_loop f (type # types) a =
     (if is_ty type a then f type a else union_encode_loop f types a)"

fun intersection_encode_loop :: "(ty \<Rightarrow> val \<Rightarrow> js_error + val) \<Rightarrow> ty list \<Rightarrow> val \<Rightarrow> js_error + val" where
  "intersection_encode_loop f [] s = Inr s"
| "intersection_encode_loop f (type # types) s =
     (case f type s of
        Inl e \<Rightarrow> Inl e
      | Inr s' \<Rightarrow> intersection_encode_loop f types s')"

fun tuple_encode_loop ::
  "(ty \<Rightarrow> val \<Rightarrow> js_error + val) \<Rightarrow> ty list \<Rightarrow> nat \<Rightarrow> val \<Rightarrow> js_error + val list" where
  "tuple_encode_loop f [] i a = Inr []"
| "tuple_encode_loop f (type # types) i a =
     (case f type (get_prop a (String_nat i)) of
        Inl e \<Rightarrow> Inl e
      | Inr v \<Rightarrow>
          (case tuple_encode_loop f types (Suc i) a of
             Inl e \<Rightarrow> Inl e
           | Inr vs \<Rightarrow> Inr (v # vs)))"

lemma interface_encode_loop_cong [fundef_cong]:
  "ps = ps' \<Longrightarrow> a = a' \<Longrightarrow> s = s'
   \<Longrightarrow> (\<And>p x. p \<in> set ps' \<Longrightarrow> f (snd p) x = g (snd p) x)
   \<Longrightarrow> interface_encode_loop f ps a s = interface_encode_loop g ps' a' s'"
  by (induction ps' arbitrary: ps s s') (auto split: sum.splits)

lemma partial_encode_loop_cong [fundef_cong]:
  "ps = ps' \<Longrightarrow> a = a' \<Longrightarrow> s = s'
   \<Longrightarrow> (\<And>p x. p \<in> set ps' \<Longrightarrow> f (snd p) x = g (snd p) x)
   \<Longrightarrow> partial_encode_loop f ps a s = partial_encode_loop g ps' a' s'"
  by (induction ps' arbitrary: ps s s') (auto simp: Let_def split: sum.splits)

lemma union_encode_loop_cong [fundef_cong]:
  "ts = ts' \<Longrightarrow> a = a'
   \<Longrightarrow> (\<And>t x. t \<in> set ts' \<Longrightarrow> f t x = g t x)
   \<Longrightarrow> union_encode_loop f ts a = union_encode_loop g ts' a'"
  by (induction f ts' a' arbitrary: ts a rule: union_encode_loop.induct) auto

lemma intersection_encode_loop_cong [fundef_cong]:
  "ts = ts' \<Longrightarrow> s = s'
   \<Longrightarrow> (\<And>t x. t \<in> set ts' \<Longrightarrow> f t x = g t x)
   \<Longrightarrow> intersection_encode_loop f ts s = intersection_encode_loop g ts' s'"
  by (induction ts' arbitrary: ts s s') (auto split: sum.splits)

lemma tuple_encode_loop_cong [fundef_cong]:
  "ts = ts' \<Longrightarrow> i = i' \<Longrightarrow> a = a'
   \<Longrightarrow> (\<And>t x. t \<in> set ts' \<Longrightarrow> f t x = g t x)
   \<Longrightarrow> tuple_encode_loop f ts i a = tuple_encode_loop g ts' i' a'"
  by (induction ts' arbitrary: ts i i') (auto split: sum.splits)

function (sequential) encode :: "ty \<Rightarrow> val \<Rightarrow> js_error + val" where
  "encode NeverType a = Inl CannotSerializeNever"
| "encode (Type n i v e) a = (case e of None \<Rightarrow> Inr a | Some f \<Rightarrow> f a)"
| "encode (RefinementType n type predicate) a = encode type a"
| "encode (ArrayType n type) a =
     (if encode_is_identity type then Inr a
      else (case a of
              VArr xs \<Rightarrow>
                (case sequence_sum (map (\<lambda>x. encode type x) xs) of
                   Inl e \<Rightarrow> Inl e
                 | Inr ys \<Rightarrow> Inr (VArr ys))
            | _ \<Rightarrow> Inl TypeError))"
| "encode (InterfaceType n props) a =
     (if list_all (\<lambda>p. encode_is_identity (snd p)) props then Inr a
      else if \<not> object_kind a then Inl IllTyped
      else (case interface_encode_loop (\<lambda>type x. encode type x) props a (spread a) of
              Inl e \<Rightarrow> Inl e
            | Inr s \<Rightarrow> Inr (VObj s)))"
| "encode (PartialType n props partial) a =
     (if list_all (\<lambda>p. encode_is_identity (snd p)) props then Inr a
      else if \<not> object_kind a then Inl IllTyped
      else (case partial_encode_loop (\<lambda>type x. encode type x) props a [] of
              Inl e \<Rightarrow> Inl e
            | Inr s \<Rightarrow> Inr (VObj s)))"
| "encode (DictionaryType n domain codomain) a =
     (if encode_is_identity domain \<and> encode_is_identity codomain then Inr a
      else if \<not> object_kind a then Inl IllTyped
      else (case dictionary_encode_loop (\<lambda>k. encode domain k) (\<lambda>x. encode codomain x)
                   (Object_keys a) a [] of
              Inl e \<Rightarrow> Inl e
            | Inr s \<Rightarrow> Inr (VObj s)))"
| "encode (UnionType n types) a =
     (if list_all encode_is_identity types then Inr a
      else union_encode_loop (\<lambda>type x. encode type x) types a)"
| "encode (IntersectionType n types) a =
     (if list_all encode_is_identity types then Inr a
      else intersection_encode_loop (\<lambda>type x. encode type x) types a)"
| "encode (TupleType n types) a =
     (if list_all encode_is_identity types then Inr a
      else if \<not> object_kind a then Inl IllTyped
      else (case tuple_encode_loop (\<lambda>type x. encode type x) types 0 a of
              Inl e \<Rightarrow> Inl e
            | Inr vs \<Rightarrow> Inr (VArr vs)))"
| "encode (ReadonlyType n type) a = encode type a"
| "encode (ReadonlyArrayType n type arrayType) a = encode arrayType a"
| "encode (StrictType n props loose) a = encode loose a"
| "encode (TaggedUnionType n tag types tagValue2Index TagValue) a =
     (if list_all encode_is_identity types then Inr a
      else if \<not> object_kind a then Inl IllTyped
      else (case member_at types tagValue2Index (get_prop a tag) of
              Some type \<Rightarrow> encode type a
            | None \<Rightarrow> Inl TypeError))"
| "encode t a = Inr a"
  by pat_completeness auto

termination encode
  by (relation "measure (\<lambda>p. size (fst p))")
     (auto simp: less_Suc_eq_le size_list_estimation' dest: size_member_at size_prop_member)

section \<open>The combinators\<close>

text \<open>
  The functions that build descriptors. Each takes the name; the name that the source
  computes when the caller gives none is a function of its own.
\<close>

definition getNameFromProps :: "(string \<times> ty) list \<Rightarrow> string" where
  "getNameFromProps props =
     ''{ '' @ join '', '' (map (\<lambda>p. fst p @ '': '' @ name (snd p)) props) @ '' }''"

definition union_name :: "ty list \<Rightarrow> string" where
  "union_name types = ''('' @ join '' | '' (map name types) @ '')''"

definition intersection_name :: "ty list \<Rightarrow> string" where
  "intersection_name types = ''('' @ join '' & '' (map name types) @ '')''"

definition tuple_name :: "ty list \<Rightarrow> string" where
  "tuple_name types = ''['' @ join '', '' (map name types) @ '']''"

definition array_name :: "ty \<Rightarrow> string" where
  "array_name type = ''Array<'' @ name type @ ''>''"

definition keyof_name :: "(val \<Rightarrow> string) \<Rightarrow> (string \<times> val) list \<Rightarrow> string" where
  "keyof_name js keys = ''(keyof '' @ js (VArr (map (\<lambda>p. VStr (fst p)) keys)) @ '')''"

definition refinement :: "ty \<Rightarrow> (val \<Rightarrow> bool) \<Rightarrow> string \<Rightarrow> ty" where
  "refinement type predicate nm = RefinementType nm type predicate"

definition literal :: "val \<Rightarrow> string \<Rightarrow> ty" where
  "literal v nm = LiteralType nm v"

definition keyof :: "(string \<times> val) list \<Rightarrow> string \<Rightarrow> ty" where
  "keyof keys nm = KeyofType nm keys"

definition array :: "ty \<Rightarrow> string \<Rightarrow> ty" where
  "array type nm = ArrayType nm type"

definition interface :: "(string \<times> ty) list \<Rightarrow> string \<Rightarrow> ty" where
  "interface props nm = InterfaceType nm props"

definition union :: "ty list \<Rightarrow> string \<Rightarrow> ty" where
  "union types nm = UnionType nm types"

definition partial :: "(string \<times> ty) list \<Rightarrow> string \<Rightarrow> ty" where
  "partial props nm =
     (let partials = map (\<lambda>p. (fst p, union [snd p, UndefinedType] (union_name [snd p, UndefinedType]))) props
      in PartialType nm props (interface partials (getNameFromProps partials)))"

definition dictionary :: "ty \<Rightarrow> ty \<Rightarrow> string \<Rightarrow> ty" where
  "dictionary domain codomain nm = DictionaryType nm domain codomain"

definition intersection :: "ty list \<Rightarrow> string \<Rightarrow> ty" where
  "intersection types nm = IntersectionType nm types"

definition tuple :: "ty list \<Rightarrow> string \<Rightarrow> ty" where
  "tuple types nm = TupleType nm types"

definition readonly :: "ty \<Rightarrow> string \<Rightarrow> ty" where
  "readonly type nm = ReadonlyType nm type"

definition readonlyArray :: "ty \<Rightarrow> string \<Rightarrow> ty" where
  "readonlyArray type nm = ReadonlyArrayType nm type (array type (array_name type))"

definition strict :: "(string \<times> ty) list \<Rightarrow> string \<Rightarrow> ty" where
  "strict props nm = StrictType nm props (interface props (getNameFromProps props))"

subsection \<open>Tagged unions\<close>

fun isTagged :: "string \<Rightarrow> ty \<Rightarrow> bool" where
  "isTagged tag (InterfaceType n props) = (tag \<in> set (map fst props))"
| "isTagged tag (StrictType n props loose) = (tag \<in> set (map fst props))"
| "isTagged tag (IntersectionType n types) = list_ex (isTagged tag) types"
| "isTagged tag (UnionType n types) = list_all (isTagged tag) types"
| "isTagged tag (TaggedUnionType n tag' types tagValue2Index TagValue) = list_all (isTagged tag) types"
| "isTagged tag (RefinementType n type predicate) = isTagged tag type"
| "isTagged tag t = False"

fun findTagged :: "string \<Rightarrow> ty list \<Rightarrow> ty option" where
  "findTagged tag [] = None"
| "findTagged tag [type] = Some type"
| "findTagged tag (type # types) = (if isTagged tag type then Some type else findTagged tag types)"

lemma findTagged_in_set: "findTagged tag types = Some t \<Longrightarrow> t \<in> set types"
  by (induction tag types rule: findTagged.induct) (auto split: if_splits)

lemma size_findTagged: "findTagged tag types = Some t \<Longrightarrow> size t < Suc (size_list size types)"
  using findTagged_in_set [of tag types t] by (simp add: less_Suc_eq_le size_list_estimation')

text \<open>\<open>props[tag].value\<close>: the value of a literal, \<open>undefined\<close> for any other descriptor.\<close>

definition value_field :: "ty \<Rightarrow> val" where
  "value_field t = (case t of LiteralType n v \<Rightarrow> v | _ \<Rightarrow> VUndefined)"

function (sequential) getTagValue :: "string \<Rightarrow> ty \<Rightarrow> js_error + val" where
  "getTagValue tag (InterfaceType n props) =
     (case map_of props tag of None \<Rightarrow> Inl TypeError | Some t \<Rightarrow> Inr (value_field t))"
| "getTagValue tag (StrictType n props loose) =
     (case map_of props tag of None \<Rightarrow> Inl TypeError | Some t \<Rightarrow> Inr (value_field t))"
| "getTagValue tag (IntersectionType n types) =
     (case findTagged tag types of None \<Rightarrow> Inl TypeError | Some t \<Rightarrow> getTagValue tag t)"
| "getTagValue tag (UnionType n types) =
     (case types of [] \<Rightarrow> Inl TypeError | t # _ \<Rightarrow> getTagValue tag t)"
| "getTagValue tag (TaggedUnionType n tag' types tagValue2Index TagValue) =
     (case types of [] \<Rightarrow> Inl TypeError | t # _ \<Rightarrow> getTagValue tag t)"
| "getTagValue tag (RefinementType n type predicate) = getTagValue tag type"
| "getTagValue tag t = Inr VUndefined"
  by pat_completeness auto

termination getTagValue
  by (relation "measure (\<lambda>p. size (snd p))") (auto dest: size_findTagged)

fun taggedUnion_loop ::
  "string \<Rightarrow> ty list \<Rightarrow> nat \<Rightarrow> (string \<times> nat) list \<Rightarrow> (string \<times> val) list
     \<Rightarrow> js_error + ((string \<times> nat) list \<times> (string \<times> val) list)" where
  "taggedUnion_loop tag [] i tagValue2Index tagValues = Inr (tagValue2Index, tagValues)"
| "taggedUnion_loop tag (type # types) i tagValue2Index tagValues =
     (case getTagValue tag type of
        Inl e \<Rightarrow> Inl e
      | Inr v \<Rightarrow>
          taggedUnion_loop tag types (Suc i) (obj_set tagValue2Index (String_val v) i)
            (obj_set tagValues (String_val v) VNull))"

definition taggedUnion :: "(val \<Rightarrow> string) \<Rightarrow> string \<Rightarrow> ty list \<Rightarrow> string \<Rightarrow> js_error + ty" where
  "taggedUnion js tag types nm =
     (case taggedUnion_loop tag types 0 [] [] of
        Inl e \<Rightarrow> Inl e
      | Inr (tagValue2Index, tagValues) \<Rightarrow>
          Inr (TaggedUnionType nm tag types tagValue2Index (keyof tagValues (keyof_name js tagValues))))"

subsection \<open>Descriptors of the test helpers\<close>

text \<open>\<open>s[i]\<close> on a string, as text: one character, or \<open>undefined\<close> beyond the end.\<close>

definition char_at :: "string \<Rightarrow> nat \<Rightarrow> string" where
  "char_at s i = (if i < length s then [s ! i] else ''undefined'')"

definition string2 :: ty where
  "string2 = Type ''string2''
     (\<lambda>v. is_ty StringType v \<and> (case v of VStr s \<Rightarrow> 1 < length s \<and> s ! 1 = CHR ''-'' | _ \<Rightarrow> False))
     (\<lambda>s c decoder.
        chain (validate StringType s c (name StringType))
          (\<lambda>s'. case s' of
                   VStr x \<Rightarrow>
                     if length x = 2 then success (VStr (char_at x 0 @ ''-'' @ char_at x 1))
                     else failure s' c decoder []
                 | _ \<Rightarrow> failure s' c decoder []))
     (Some (\<lambda>a. case a of VStr x \<Rightarrow> Inr (VStr (char_at x 0 @ char_at x 2)) | _ \<Rightarrow> Inl IllTyped))"

definition withDefault :: "ty \<Rightarrow> val \<Rightarrow> string \<Rightarrow> ty" where
  "withDefault type defaultValue nm =
     Type nm (is_ty type)
       (\<lambda>v c decoder. validate type (if v \<noteq> VNull \<and> v \<noteq> VUndefined then v else defaultValue) c (name type))
       (if encode_is_identity type then None else Some (encode type))"

subsection \<open>Notions used by the properties\<close>

text \<open>A leaf with its path, as the error that \<open>convertError\<close> makes of it.\<close>

definition to_ve :: "val \<times> (string \<times> string) list \<Rightarrow> ValidationError" where
  "to_ve l = \<lparr>ve_value = fst l,
             ve_context = map (\<lambda>q. \<lparr>ce_key = fst q, ce_type = snd q\<rparr>) (snd l)\<rparr>"

text \<open>The own properties of \<open>o\<close> that \<open>props\<close> does not declare, in enumeration order.\<close>

definition extra_keys :: "(string \<times> ty) list \<Rightarrow> val \<Rightarrow> string list" where
  "extra_keys props o' = filter (\<lambda>k. k \<notin> set (map fst props)) (getOwnPropertyNames o')"

section \<open>The array combinator with references\<close>

text \<open>
  The validator of \<open>array\<close> compares and updates arrays by reference, so this section
  models it over a store. A value is a primitive or a reference; the store is the
  list of the arrays allocated so far, the array at address \<open>p\<close> being \<open>st ! p\<close>, and a
  reference outside the store is an object that is no array. \<open>xs.slice()\<close>
  allocates a copy at the next address. \<open>a !== b\<close> is disequality of such values:
  primitives by content, references by address. The validator of the element
  descriptor is the parameter \<open>f\<close>, \<open>f x i\<close> being \<open>type.validate(x, i, type)\<close>; it
  does not touch the store.
\<close>

type_synonym addr = nat

datatype rval = RUndefined | RNull | RBool bool | RNum int | RStr string | RRef addr

type_synonym store = "rval list list"

definition isArray_ref :: "store \<Rightarrow> rval \<Rightarrow> bool" where
  "isArray_ref st m = (case m of RRef p \<Rightarrow> p < length st | _ \<Rightarrow> False)"

text \<open>
  The loop of \<open>array\<close>, over the indices that remain: \<open>xs\<close> is the address of the
  input array, \<open>a\<close> the address of the result. The test before the copy is the
  source's \<open>a === validation\<close>.
\<close>

fun array_loop_ref ::
  "(rval \<Rightarrow> nat \<Rightarrow> rval verror + rval) \<Rightarrow> addr \<Rightarrow> nat list \<Rightarrow> addr \<Rightarrow> store \<Rightarrow> rval verror list
     \<Rightarrow> addr \<times> store \<times> rval verror list" where
  "array_loop_ref f xs [] a st errors = (a, st, errors)"
| "array_loop_ref f xs (i # is) a st errors =
     (let x = st ! xs ! i
      in case f x i of
           Inl e \<Rightarrow> array_loop_ref f xs is a st (errors @ [e])
         | Inr validation \<Rightarrow>
             if validation \<noteq> x
             then (let a' = (if RRef a = validation then length st else a);
                       st' = (if RRef a = validation then st @ [st ! xs] else st)
                   in array_loop_ref f xs is a' (st'[a' := (st' ! a')[i := validation]]) errors)
             else array_loop_ref f xs is a st errors)"

definition array_validate_ref ::
  "(rval \<Rightarrow> nat \<Rightarrow> rval verror + rval) \<Rightarrow> store \<Rightarrow> rval \<Rightarrow> string \<Rightarrow> string
     \<Rightarrow> (rval verror + rval) \<times> store" where
  "array_validate_ref f st m c decoder =
     (case m of
        RRef xs \<Rightarrow>
          if isArray_ref st m
          then (case array_loop_ref f xs [0..<length (st ! xs)] xs st [] of
                  (a, st', errors) \<Rightarrow>
                    (if errors \<noteq> [] then failures m c decoder errors else Inr (RRef a), st'))
          else (failure m c decoder [], st)
      | _ \<Rightarrow> (failure m c decoder [], st))"

text \<open>
  The loop of \<open>tuple\<close> in the same model, for an input at least as long as the tuple:
  \<open>fs\<close> are the validators of the members, \<open>as\<close> the address of the input, \<open>t\<close> the
  address of the result. The test before the copy is the source's \<open>t === as\<close>.
\<close>

fun tuple_loop_ref ::
  "(rval \<Rightarrow> nat \<Rightarrow> rval verror + rval) list \<Rightarrow> nat \<Rightarrow> addr \<Rightarrow> addr \<Rightarrow> store \<Rightarrow> rval verror list
     \<Rightarrow> addr \<times> store \<times> rval verror list" where
  "tuple_loop_ref [] i as t st errors = (t, st, errors)"
| "tuple_loop_ref (f # fs) i as t st errors =
     (let a = st ! as ! i
      in case f a i of
           Inl e \<Rightarrow> tuple_loop_ref fs (Suc i) as t st (errors @ [e])
         | Inr validation \<Rightarrow>
             if validation \<noteq> a
             then (let t' = (if t = as then length st else t);
                       st' = (if t = as then st @ [st ! as] else st)
                   in tuple_loop_ref fs (Suc i) as t' (st'[t' := (st' ! t')[i := validation]]) errors)
             else tuple_loop_ref fs (Suc i) as t st errors)"

text \<open>The validator of the helper \<open>withDefault(t.number, 0)\<close> on these values.\<close>

definition withDefault_number_ref :: "rval \<Rightarrow> nat \<Rightarrow> rval verror + rval" where
  "withDefault_number_ref v i =
     (let v' = (if v \<noteq> RNull \<and> v \<noteq> RUndefined then v else RNum 0)
      in case v' of
           RNum _ \<Rightarrow> Inr v'
         | _ \<Rightarrow> failure v' (String_nat i) ''number'' [])"

section \<open>Union over members with effects\<close>

text \<open>
  A union passes the same input to every member, and the validator of a member may
  write into that input (the validator of \<open>array\<close> does), so what a later member
  reads depends on the members before it. Here a member is its name and a
  \<open>validate\<close> that takes and returns a store; \<open>member_validate t st m c decoder\<close> is
  \<open>t.validate(m, c, decoder)\<close> run in the store \<open>st\<close>. The store and the values are
  parameters.
\<close>

datatype ('s, 'v) member =
  Member (member_name: string)
    (member_validate: "'s \<Rightarrow> 'v \<Rightarrow> string \<Rightarrow> string \<Rightarrow> ('v verror + 'v) \<times> 's")

fun union_loop_st ::
  "('s, 'v) member list \<Rightarrow> nat \<Rightarrow> 'v \<Rightarrow> 'v verror list \<Rightarrow> 's \<Rightarrow> ('v verror list + 'v) \<times> 's" where
  "union_loop_st [] i m errors st = (Inl errors, st)"
| "union_loop_st (type # types) i m errors st =
     (case member_validate type st m (String_nat i) (member_name type) of
        (Inl e, st') \<Rightarrow> union_loop_st types (Suc i) m (errors @ [e]) st'
      | (Inr validation, st') \<Rightarrow> (Inr validation, st'))"

definition union_validate_st ::
  "('s, 'v) member list \<Rightarrow> 's \<Rightarrow> 'v \<Rightarrow> string \<Rightarrow> string \<Rightarrow> ('v verror + 'v) \<times> 's" where
  "union_validate_st types st m c decoder =
     (case union_loop_st types 0 m [] st of
        (Inr validation, st') \<Rightarrow> (Inr validation, st')
      | (Inl errors, st') \<Rightarrow> (failures m c decoder errors, st'))"

text \<open>
  The members tried in declaration order, each in the store that the one before it
  left, member \<open>j\<close> at key \<open>String(j)\<close> and with itself as decoder: \<open>Some\<close> of their
  failures, in order, and of the last store when every one fails, \<open>None\<close> when one
  succeeds.
\<close>

fun members_fail ::
  "('s, 'v) member list \<Rightarrow> nat \<Rightarrow> 'v \<Rightarrow> 's \<Rightarrow> ('v verror list \<times> 's) option" where
  "members_fail [] j m st = Some ([], st)"
| "members_fail (t # ts) j m st =
     (case member_validate t st m (String_nat j) (member_name t) of
        (Inr w, st') \<Rightarrow> None
      | (Inl e, st') \<Rightarrow>
          (case members_fail ts (Suc j) m st' of
             None \<Rightarrow> None
           | Some (es, st'') \<Rightarrow> Some (e # es, st'')))"

text \<open>The validator of \<open>union([null, string])\<close> as an element validator of the store model.\<close>

definition null_or_string_ref :: "rval \<Rightarrow> nat \<Rightarrow> rval verror + rval" where
  "null_or_string_ref v i =
     (case v of
        RNull \<Rightarrow> Inr v
      | RStr _ \<Rightarrow> Inr v
      | _ \<Rightarrow> failures v (String_nat i) ''(null | string)''
               [VError v ''0'' ''null'' [], VError v ''1'' ''string'' []])"

section \<open>Properties of the path reporter\<close>

lemma convertError_leaf_paths: "convertError e = map to_ve (leaf_paths e)"
proof (induction e)
  case (VError v k t cs)
  show ?case
  proof (cases "cs = []")
    case True
    then show ?thesis by (simp add: to_ve_def)
  next
    case False
    let ?F = "\<lambda>child. map (\<lambda>error. \<lparr>ve_value = ve_value error,
                 ve_context = \<lparr>ce_key = k, ce_type = t\<rparr> # ve_context error\<rparr>) (convertError child)"
    let ?G = "\<lambda>c. map to_ve (map (\<lambda>(w, p). (w, (k, t) # p)) (leaf_paths c))"
    have step: "?F c = ?G c" if "c \<in> set cs" for c
      using VError.IH [OF that] by (simp add: to_ve_def case_prod_beta)
    have FG: "map ?F cs = map ?G cs"
      by (rule map_cong [OF refl]) (rule step)
    have "convertError (VError v k t cs) = concat (map ?F cs)"
      using False by simp
    also have "\<dots> = concat (map ?G cs)"
      by (simp only: FG)
    also have "\<dots> = map to_ve (leaf_paths (VError v k t cs))"
      using False by (simp add: map_concat comp_def)
    finally show ?thesis .
  qed
qed

lemma length_leaf_paths: "length (leaf_paths e) = leaf_count e"
proof (induction e)
  case (VError v k t cs)
  have h: "map (\<lambda>c. length (leaf_paths c)) cs = map leaf_count cs"
    by (rule map_cong [OF refl]) (rule VError.IH)
  show ?case
  proof (cases "cs = []")
    case True
    then show ?thesis by simp
  next
    case False
    then have "length (leaf_paths (VError v k t cs))
        = sum_list (map (\<lambda>c. length (leaf_paths c)) cs)"
      by (simp add: length_concat comp_def)
    with False show ?thesis by (simp only: h leaf_count.simps if_False)
  qed
qed

lemma getFunctionName_name_of_function: "getFunctionName f = name_of_function f"
  by (simp add: getFunctionName_def name_of_function_def split: list.splits)

lemma getContextPath_path_text:
  "getContextPath (map (\<lambda>q. \<lparr>ce_key = fst q, ce_type = snd q\<rparr>) p) = path_text p"
proof (induction p rule: path_text.induct)
  case (3 k n q qs)
  then show ?case by (cases q) (simp add: getContextPath_def)
qed (simp_all add: getContextPath_def)

lemma getMessage_leaf_message:
  "getMessage js (ve_value (to_ve l)) (ve_context (to_ve l)) = leaf_message js l"
proof -
  have "getContextPath (ve_context (to_ve l)) = path_text (snd l)"
    using getContextPath_path_text [of "snd l"] by (simp add: to_ve_def)
  then show ?thesis
    by (simp add: getMessage_def leaf_message_def stringify_def getFunctionName_name_of_function
        to_ve_def split: val.split)
qed

text \<open>
  C9. For a failure whose error tree has \<open>k\<close> leaves the path reporter returns exactly
  \<open>k\<close> strings, in left-to-right leaf order; the string of a leaf is
  "Invalid value <repr> supplied to <path>", where <path> joins the root-to-leaf
  "key: name" pairs with "/" and <repr> is the JSON text of the leaf's value, or
  the function's name when the value is a function.
\<close>

theorem path_reporter_one_message_per_leaf:
  "PathReporter_report js (Inl e) = Inr (map (leaf_message js) (leaf_paths e))
   \<and> length (map (leaf_message js) (leaf_paths e)) = leaf_count e"
  by (simp add: PathReporter_report_def PathReporter_failure_def convertError_leaf_paths
      comp_def getMessage_leaf_message length_leaf_paths)

text \<open>
  The error tree of the repository's test \<open>T.decode({foo: 'foo', bar: 1})\<close>, with one
  more leaf whose value is a function named \<open>f\<close>: three leaves, three messages.
\<close>

theorem path_reporter_one_message_per_leaf_witness:
  "PathReporter_report (\<lambda>v. ''1'')
     (Inl (VError (VObj [(''foo'', VStr ''foo''), (''bar'', VNum 1)]) [] ''T''
        [VError (VNum 1) ''bar'' ''(string | undefined)''
           [VError (VNum 1) ''0'' ''string'' [], VError (VNum 1) ''1'' ''undefined'' []],
         VError (VFun \<lparr>displayName = [], fn_name = ''f'', fn_length = 0, fn_source = []\<rparr>)
           ''g'' ''number'' []]))
     = Inr [''Invalid value 1 supplied to : T/bar: (string | undefined)/0: string'',
            ''Invalid value 1 supplied to : T/bar: (string | undefined)/1: undefined'',
            ''Invalid value f supplied to : T/g: number'']
   \<and> leaf_count (VError (VObj [(''foo'', VStr ''foo''), (''bar'', VNum 1)]) [] ''T''
        [VError (VNum 1) ''bar'' ''(string | undefined)''
           [VError (VNum 1) ''0'' ''string'' [], VError (VNum 1) ''1'' ''undefined'' []],
         VError (VFun \<lparr>displayName = [], fn_name = ''f'', fn_length = 0, fn_source = []\<rparr>)
           ''g'' ''number'' []]) = 3"
proof -
  let ?e = "VError (VObj [(''foo'', VStr ''foo''), (''bar'', VNum 1)]) [] ''T''
        [VError (VNum 1) ''bar'' ''(string | undefined)''
           [VError (VNum 1) ''0'' ''string'' [], VError (VNum 1) ''1'' ''undefined'' []],
         VError (VFun \<lparr>displayName = [], fn_name = ''f'', fn_length = 0, fn_source = []\<rparr>)
           ''g'' ''number'' []]"
  note t = path_reporter_one_message_per_leaf [of "\<lambda>v. ''1''" ?e]
  have m: "map (leaf_message (\<lambda>v. ''1'')) (leaf_paths ?e)
      = [''Invalid value 1 supplied to : T/bar: (string | undefined)/0: string'',
         ''Invalid value 1 supplied to : T/bar: (string | undefined)/1: undefined'',
         ''Invalid value f supplied to : T/g: number'']"
    by (simp add: leaf_message_def name_of_function_def)
  have r1: "PathReporter_report (\<lambda>v. ''1'') (Inl ?e)
      = Inr [''Invalid value 1 supplied to : T/bar: (string | undefined)/0: string'',
             ''Invalid value 1 supplied to : T/bar: (string | undefined)/1: undefined'',
             ''Invalid value f supplied to : T/g: number'']"
    using conjunct1 [OF t] by (simp only: m)
  have "length [''Invalid value 1 supplied to : T/bar: (string | undefined)/0: string'',
             ''Invalid value 1 supplied to : T/bar: (string | undefined)/1: undefined'',
             ''Invalid value f supplied to : T/g: number''] = leaf_count ?e"
    using conjunct2 [OF t] by (simp only: m)
  then have r2: "leaf_count ?e = 3" by simp
  show ?thesis by (rule conjI [OF r1 r2])
qed

section \<open>Evaluation of concrete calls\<close>

lemmas ev = String_nat.simps digit_char_def guard_def failure_def failures_def success_def
  failureError_def arr_get_def isLeft_def strict_eq_def strict_neq_def

section \<open>Refinement\<close>

text \<open>
  C8. When the base descriptor of a refinement validates the input to \<open>w\<close> and the
  predicate rejects \<open>w\<close>, the failure is a leaf that records \<open>w\<close>, the validated
  value, at the key and decoder of the call; the raw input \<open>i\<close> does not appear.
\<close>

theorem refinement_failure_records_validated_value:
  assumes "validate base i c decoder = Inr w" and "\<not> predicate w"
  shows "validate (refinement base predicate nm) i c decoder = Inl (VError w c decoder [])"
  using assms by (simp add: refinement_def failure_def)

theorem refinement_failure_records_validated_value_witness:
  "validate string2 (VStr ''ab'') ''k'' ''D'' = Inr (VStr ''a-b'')
   \<and> VStr ''a-b'' \<noteq> VStr ''ab''
   \<and> validate (refinement string2 (\<lambda>v. v = VStr ''ab'') ''R'') (VStr ''ab'') ''k'' ''D''
       = Inl (VError (VStr ''a-b'') ''k'' ''D'' [])"
proof -
  have b: "validate string2 (VStr ''ab'') ''k'' ''D'' = Inr (VStr ''a-b'')"
    by (simp add: string2_def chain_def guard_def success_def char_at_def)
  have p: "VStr ''a-b'' \<noteq> VStr ''ab''" by simp
  have r: "validate (refinement string2 (\<lambda>v. v = VStr ''ab'') ''R'') (VStr ''ab'') ''k'' ''D''
       = Inl (VError (VStr ''a-b'') ''k'' ''D'' [])"
    by (rule refinement_failure_records_validated_value
          [of string2 "VStr ''ab''" "''k''" "''D''" "VStr ''a-b''" "\<lambda>v. v = VStr ''ab''" "''R''",
           OF b p])
  show ?thesis by (rule conjI [OF b conjI [OF p r]])
qed

section \<open>Union\<close>

lemma members_fail_length: "members_fail ts j m st = Some (es, st') \<Longrightarrow> length es = length ts"
  by (induction ts arbitrary: j st es) (auto split: prod.splits sum.splits option.splits)

lemma union_loop_st_all_fail:
  "members_fail ts j m st = Some (es, st')
   \<Longrightarrow> union_loop_st ts j m errors st = (Inl (errors @ es), st')"
  by (induction ts arbitrary: j st es errors) (auto split: prod.splits sum.splits option.splits)

lemma union_loop_st_first_success:
  "members_fail ts j m st = Some (es, st1)
   \<Longrightarrow> member_validate t st1 m (String_nat (j + length ts)) (member_name t) = (Inr w, st2)
   \<Longrightarrow> union_loop_st (ts @ t # us) j m errors st = (Inr w, st2)"
  by (induction ts arbitrary: j st es errors) (auto split: prod.splits sum.splits option.splits)

text \<open>Members without effects: the loop is the loop of the value model.\<close>

lemma union_loop_st_pure:
  "union_loop_st (map (\<lambda>t. Member (name t) (\<lambda>st m k d. (validate t m k d, st))) types) i m errors st
     = (union_loop (\<lambda>t i. validate t m (String_nat i) (name t)) types i errors, st)"
  by (induction types arbitrary: i errors) (auto split: sum.splits)

text \<open>
  C2. A union validates the input against its members in declaration order, member
  \<open>j\<close> at key \<open>String(j)\<close>, each member running in the store that the members before
  it left. When the members before \<open>t\<close> fail and \<open>t\<close> then succeeds with \<open>w\<close>, the
  union returns \<open>w\<close> and the store that \<open>t\<close> left, whatever the members \<open>us\<close> after \<open>t\<close>
  are: they are not run. When every member fails, the union returns one error node
  for the input at the key and decoder of the call, whose children are the
  members' error nodes, one per member, in member order.
\<close>

theorem union_first_success_else_all_failures:
  "(members_fail ts 0 m st = Some (es, st1)
      \<and> member_validate t st1 m (String_nat (length ts)) (member_name t) = (Inr w, st2)
    \<longrightarrow> union_validate_st (ts @ t # us) st m c decoder = (Inr w, st2))
   \<and> (members_fail types 0 m st = Some (es', st3)
    \<longrightarrow> union_validate_st types st m c decoder = (Inl (VError m c decoder es'), st3)
        \<and> length es' = length types)"
proof (intro conjI impI)
  assume "members_fail ts 0 m st = Some (es, st1)
      \<and> member_validate t st1 m (String_nat (length ts)) (member_name t) = (Inr w, st2)"
  then show "union_validate_st (ts @ t # us) st m c decoder = (Inr w, st2)"
    using union_loop_st_first_success [of ts 0 m st es st1 t w st2 us "[]"]
    by (simp add: union_validate_st_def)
next
  assume a: "members_fail types 0 m st = Some (es', st3)"
  then show "union_validate_st types st m c decoder = (Inl (VError m c decoder es'), st3)"
    using union_loop_st_all_fail [of types 0 m st es' st3 "[]"]
    by (simp add: union_validate_st_def failures_def failure_def)
  from a show "length es' = length types" by (rule members_fail_length)
qed

text \<open>
  \<open>union([array(withDefault(number, 0)), array(union([null, string]))])\<close> on the array
  \<open>[null, 'x']\<close> at address 0: the first member writes \<open>0\<close> over \<open>null\<close> and fails on
  \<open>'x'\<close>; the second member reads \<open>[0, 'x']\<close> and fails on \<open>0\<close>; the union fails
  with both failures. With the second and the first of these members and a third,
  on \<open>[1, null]\<close>: the first fails on \<open>1\<close>, the second succeeds, and the store is the
  one it left.
\<close>

theorem union_first_success_else_all_failures_witness:
  "union_validate_st
      [Member ''A'' (array_validate_ref withDefault_number_ref),
       Member ''B'' (array_validate_ref null_or_string_ref)]
      [[RNull, RStr ''x'']] (RRef 0) [] ''U''
     = (Inl (VError (RRef 0) [] ''U''
          [VError (RRef 0) ''0'' ''A'' [VError (RStr ''x'') ''1'' ''number'' []],
           VError (RRef 0) ''1'' ''B''
             [VError (RNum 0) ''0'' ''(null | string)''
                [VError (RNum 0) ''0'' ''null'' [], VError (RNum 0) ''1'' ''string'' []]]]),
        [[RNum 0, RStr ''x'']])
   \<and> union_validate_st
      ([Member ''B'' (array_validate_ref null_or_string_ref)]
         @ Member ''A'' (array_validate_ref withDefault_number_ref)
         # [Member ''B'' (array_validate_ref null_or_string_ref)])
      [[RNum 1, RNull]] (RRef 0) [] ''U''
     = (Inr (RRef 0), [[RNum 1, RNum 0]])"
proof -
  let ?A = "Member ''A'' (array_validate_ref withDefault_number_ref)"
  let ?B = "Member ''B'' (array_validate_ref null_or_string_ref)"
  let ?es = "[VError (RRef 0) ''0'' ''A'' [VError (RStr ''x'') ''1'' ''number'' []],
           VError (RRef 0) ''1'' ''B''
             [VError (RNum 0) ''0'' ''(null | string)''
                [VError (RNum 0) ''0'' ''null'' [], VError (RNum 0) ''1'' ''string'' []]]]"
  have f: "members_fail [?A, ?B] 0 (RRef 0) [[RNull, RStr ''x'']] = Some (?es, [[RNum 0, RStr ''x'']])"
    by (simp add: array_validate_ref_def isArray_ref_def withDefault_number_ref_def
        null_or_string_ref_def Let_def upt_rec ev)
  have g: "members_fail [?B] 0 (RRef 0) [[RNum 1, RNull]]
      = Some ([VError (RRef 0) ''0'' ''B''
                 [VError (RNum 1) ''0'' ''(null | string)''
                    [VError (RNum 1) ''0'' ''null'' [], VError (RNum 1) ''1'' ''string'' []]]],
              [[RNum 1, RNull]])
     \<and> member_validate ?A [[RNum 1, RNull]] (RRef 0) (String_nat (length [?B])) (member_name ?A)
      = (Inr (RRef 0), [[RNum 1, RNum 0]])"
    by (simp add: array_validate_ref_def isArray_ref_def withDefault_number_ref_def
        null_or_string_ref_def Let_def upt_rec ev)
  note u = union_first_success_else_all_failures
    [where ts = "[?B]" and t = ?A and us = "[?B]" and m = "RRef 0" and st = "[[RNum 1, RNull]]"
       and c = "[]" and decoder = "''U''"]
  note v = union_first_success_else_all_failures
    [where types = "[?A, ?B]" and m = "RRef 0" and st = "[[RNull, RStr ''x'']]"
       and c = "[]" and decoder = "''U''"]
  have r1: "union_validate_st [?A, ?B] [[RNull, RStr ''x'']] (RRef 0) [] ''U''
      = (Inl (VError (RRef 0) [] ''U'' ?es), [[RNum 0, RStr ''x'']])"
    by (rule conjunct1 [OF mp [OF conjunct2 [OF v] f]])
  have r2: "union_validate_st ([?B] @ ?A # [?B]) [[RNum 1, RNull]] (RRef 0) [] ''U''
      = (Inr (RRef 0), [[RNum 1, RNum 0]])"
    by (rule mp [OF conjunct1 [OF u] g])
  show ?thesis by (rule conjI [OF r1 r2])
qed

section \<open>Intersection\<close>

text \<open>
  C3, at the input \<open>intersection([string]).decode(1)\<close>. The member \<open>string\<close> fails on
  \<open>1\<close> with a leaf error, which has no children; the intersection pushes the
  children of a member's error, so nothing is pushed, and the intersection returns
  the success \<open>1\<close>.
\<close>

theorem intersection_leaf_failure_is_lost:
  "validate StringType (VNum 1) ''0'' ''string'' = Inl (VError (VNum 1) ''0'' ''string'' [])
   \<and> decode (intersection [StringType] ''(string)'') (VNum 1) = Inr (VNum 1)"
  by (simp add: decode_def intersection_def ev)

text \<open>
  When the failing member's error node has children, they become the children of the
  intersection's node: \<open>intersection([type({a: string})])\<close> on \<open>{a: 1}\<close>.
\<close>

lemma intersection_splices_children_example:
  "decode (intersection [interface [(''a'', StringType)] ''A''] ''I'') (VObj [(''a'', VNum 1)])
     = Inl (VError (VObj [(''a'', VNum 1)]) [] ''I'' [VError (VNum 1) ''a'' ''string'' []])"
  by (simp add: decode_def intersection_def interface_def object_kind_def get_prop_def ev)

section \<open>Tuple\<close>

lemma tuple_loop_errors:
  "snd (tuple_loop f ts i as t errors)
     = errors @ map projl (filter isLeft (map (\<lambda>j. f (ts ! j) (arr_get as (i + j)) (i + j)) [0..<length ts]))"
proof (induction ts arbitrary: i t errors)
  case Nil
  then show ?case by simp
next
  case (Cons a ts)
  show ?case
    by (cases "f a (arr_get as i) i")
       (simp_all add: Let_def Cons.IH map_upt_Suc isLeft_def del: upt_Suc)
qed

text \<open>
  C4 as stated fails: \<open>tuple([string])\<close> on \<open>["a", 1, 2]\<close> has the excess indices 1 and
  2, and the failure has one child, at key 1; nothing is reported at key 2.
\<close>

theorem tuple_excess_counterexample:
  "validate (tuple [StringType] ''[string]'') (VArr [VStr ''a'', VNum 1, VNum 2]) [] ''[string]''
     = Inl (VError (VArr [VStr ''a'', VNum 1, VNum 2]) [] ''[string]''
              [VError (VNum 1) ''1'' ''never'' []])"
  by (simp add: tuple_def ev)

text \<open>
  C4, amended. For a tuple of arity \<open>n\<close> and an array longer than \<open>n\<close>, validate fails.
  The children of the error node are the failures of the declared members on the
  first \<open>n\<close> elements, in order, followed by exactly one error bound to \<open>never\<close>, at
  key \<open>String(n)\<close>, for the element at index \<open>n\<close>, the first excess index.
\<close>

theorem tuple_excess_one_never_error:
  assumes "length types < length as"
  shows "validate (tuple types nm) (VArr as) c decoder
     = Inl (VError (VArr as) c decoder
         (map projl (filter isLeft
            (map (\<lambda>j. validate (types ! j) (as ! j) (String_nat j) (name (types ! j))) [0..<length types]))
          @ [VError (as ! length types) (String_nat (length types)) ''never'' []]))"
proof -
  let ?f = "\<lambda>type a i. validate type a (String_nat i) (name type)"
  obtain t errors where l: "tuple_loop ?f types 0 as as [] = (t, errors)"
    by (cases "tuple_loop ?f types 0 as as []")
  have "errors = map projl (filter isLeft (map (\<lambda>j. ?f (types ! j) (arr_get as (0 + j)) (0 + j)) [0..<length types]))"
    using tuple_loop_errors [of ?f types 0 as as "[]"] l by simp
  also have "\<dots> = map projl (filter isLeft
            (map (\<lambda>j. validate (types ! j) (as ! j) (String_nat j) (name (types ! j))) [0..<length types]))"
  proof -
    have "map (\<lambda>j. ?f (types ! j) (arr_get as (0 + j)) (0 + j)) [0..<length types]
        = map (\<lambda>j. validate (types ! j) (as ! j) (String_nat j) (name (types ! j))) [0..<length types]"
      by (rule map_cong [OF refl]) (use assms in \<open>simp add: arr_get_def\<close>)
    then show ?thesis by (simp only:)
  qed
  finally have e: "errors = map projl (filter isLeft
            (map (\<lambda>j. validate (types ! j) (as ! j) (String_nat j) (name (types ! j))) [0..<length types]))" .
  show ?thesis
    using assms l e [symmetric]
    by (simp add: tuple_def guard_def failures_def failure_def failureError_def arr_get_def Let_def)
qed

theorem tuple_excess_one_never_error_witness:
  "length [StringType] < length [VStr ''a'', VNum 1, VNum 2]
   \<and> validate (tuple [StringType] ''T'') (VArr [VStr ''a'', VNum 1, VNum 2]) [] ''T''
     = Inl (VError (VArr [VStr ''a'', VNum 1, VNum 2]) [] ''T'' ([] @ [VError (VNum 1) ''1'' ''never'' []]))"
proof -
  have h: "length [StringType] < length [VStr ''a'', VNum 1, VNum 2]" by simp
  have e: "map projl (filter isLeft
            (map (\<lambda>j. validate ([StringType] ! j) ([VStr ''a'', VNum 1, VNum 2] ! j) (String_nat j)
                   (name ([StringType] ! j))) [0..<length [StringType]])) = []"
    and e2: "[VStr ''a'', VNum 1, VNum 2] ! length [StringType] = VNum 1"
    and e3: "String_nat (length [StringType]) = ''1''"
    by (simp_all add: ev)
  have r: "validate (tuple [StringType] ''T'') (VArr [VStr ''a'', VNum 1, VNum 2]) [] ''T''
     = Inl (VError (VArr [VStr ''a'', VNum 1, VNum 2]) [] ''T'' ([] @ [VError (VNum 1) ''1'' ''never'' []]))"
    using tuple_excess_one_never_error [OF h, of "''T''" "[]" "''T''"] by (simp only: e e2 e3)
  show ?thesis by (rule conjI [OF h r])
qed

section \<open>Strict\<close>

lemma strict_loop_filter:
  "strict_loop keys props o' errors
     = errors @ map (\<lambda>k. VError (get_prop o' k) k ''never'' [])
                  (filter (\<lambda>k. k \<notin> set (map fst props)) keys)"
  by (induction keys arbitrary: errors) (simp_all add: failureError_def)

text \<open>
  C6. \<open>strict\<close> first runs the validation of the open object \<open>loose = type(props)\<close>
  and returns its failure. On its success with \<open>o\<close>, every own property of \<open>o\<close> that
  \<open>props\<close> does not declare gives one error bound to \<open>never\<close> at that property's key,
  with the property's value; with no such property the result is \<open>o\<close> itself. So
  validate fails exactly when the open object fails or there is an extra key. The
  encoder of \<open>strict\<close> is the encoder of the open object.
\<close>

theorem strict_is_open_object_then_extra_key_scan:
  "validate (strict props nm) m c decoder
     = (case validate (interface props (getNameFromProps props)) m c (getNameFromProps props) of
          Inl e \<Rightarrow> Inl e
        | Inr o' \<Rightarrow>
            if extra_keys props o' = [] then Inr o'
            else Inl (VError m [] decoder
                       (map (\<lambda>k. VError (get_prop o' k) k ''never'' []) (extra_keys props o'))))
   \<and> (isLeft (validate (strict props nm) m c decoder)
        \<longleftrightarrow> isLeft (validate (interface props (getNameFromProps props)) m c (getNameFromProps props))
            \<or> (\<exists>o'. validate (interface props (getNameFromProps props)) m c (getNameFromProps props) = Inr o'
                    \<and> extra_keys props o' \<noteq> []))
   \<and> encode (strict props nm) a = encode (interface props (getNameFromProps props)) a
   \<and> encode_is_identity (strict props nm) = encode_is_identity (interface props (getNameFromProps props))"
proof -
  let ?loose = "validate (interface props (getNameFromProps props)) m c (getNameFromProps props)"
  have 1: "validate (strict props nm) m c decoder
     = (case ?loose of
          Inl e \<Rightarrow> Inl e
        | Inr o' \<Rightarrow>
            if extra_keys props o' = [] then Inr o'
            else Inl (VError m [] decoder
                       (map (\<lambda>k. VError (get_prop o' k) k ''never'' []) (extra_keys props o'))))"
    by (cases ?loose)
       (simp_all add: strict_def interface_def strict_loop_filter extra_keys_def Let_def
          failures_def failure_def)
  have 2: "isLeft (validate (strict props nm) m c decoder)
        \<longleftrightarrow> isLeft ?loose \<or> (\<exists>o'. ?loose = Inr o' \<and> extra_keys props o' \<noteq> [])"
    unfolding 1 by (cases ?loose) (simp_all add: isLeft_def)
  have 3: "encode (strict props nm) a = encode (interface props (getNameFromProps props)) a"
    by (simp add: strict_def interface_def)
  have 4: "encode_is_identity (strict props nm) = encode_is_identity (interface props (getNameFromProps props))"
    by (simp add: strict_def interface_def)
  show ?thesis using 1 2 3 4 by blast
qed


theorem strict_is_open_object_then_extra_key_scan_witness:
  "validate (strict [(''foo'', StringType)] ''S'') (VObj [(''foo'', VStr ''x''), (''bar'', VNum 1)]) [] ''S''
     = Inl (VError (VObj [(''foo'', VStr ''x''), (''bar'', VNum 1)]) [] ''S''
              [VError (VNum 1) ''bar'' ''never'' []])
   \<and> validate (strict [(''foo'', StringType)] ''S'') (VObj [(''foo'', VStr ''x'')]) [] ''S''
     = Inr (VObj [(''foo'', VStr ''x'')])"
proof -
  note t1 = strict_is_open_object_then_extra_key_scan
    [of "[(''foo'', StringType)]" "''S''" "VObj [(''foo'', VStr ''x''), (''bar'', VNum 1)]" "[]" "''S''" VNull]
  note t2 = strict_is_open_object_then_extra_key_scan
    [of "[(''foo'', StringType)]" "''S''" "VObj [(''foo'', VStr ''x'')]" "[]" "''S''" VNull]
  have e1: "(case validate (interface [(''foo'', StringType)] (getNameFromProps [(''foo'', StringType)]))
                 (VObj [(''foo'', VStr ''x''), (''bar'', VNum 1)]) [] (getNameFromProps [(''foo'', StringType)]) of
          Inl e \<Rightarrow> Inl e
        | Inr o' \<Rightarrow>
            if extra_keys [(''foo'', StringType)] o' = [] then Inr o'
            else Inl (VError (VObj [(''foo'', VStr ''x''), (''bar'', VNum 1)]) [] ''S''
                       (map (\<lambda>k. VError (get_prop o' k) k ''never'' []) (extra_keys [(''foo'', StringType)] o'))))
      = Inl (VError (VObj [(''foo'', VStr ''x''), (''bar'', VNum 1)]) [] ''S''
              [VError (VNum 1) ''bar'' ''never'' []])"
    by (simp add: interface_def extra_keys_def getOwnPropertyNames_def get_prop_def object_kind_def ev)
  have e2: "(case validate (interface [(''foo'', StringType)] (getNameFromProps [(''foo'', StringType)]))
                 (VObj [(''foo'', VStr ''x'')]) [] (getNameFromProps [(''foo'', StringType)]) of
          Inl e \<Rightarrow> Inl e
        | Inr o' \<Rightarrow>
            if extra_keys [(''foo'', StringType)] o' = [] then Inr o'
            else Inl (VError (VObj [(''foo'', VStr ''x'')]) [] ''S''
                       (map (\<lambda>k. VError (get_prop o' k) k ''never'' []) (extra_keys [(''foo'', StringType)] o'))))
      = Inr (VObj [(''foo'', VStr ''x'')])"
    by (simp add: interface_def extra_keys_def getOwnPropertyNames_def get_prop_def object_kind_def ev)
  show ?thesis
    by (rule conjI [OF trans [OF conjunct1 [OF t1] e1] trans [OF conjunct1 [OF t2] e2]])
qed

section \<open>Tagged union\<close>

lemma obj_insert_keys: "fst ` set (obj_insert kvs k v) = insert k (fst ` set kvs)"
proof (induction kvs)
  case Nil
  show ?case by simp
next
  case (Cons p kvs)
  show ?case
  proof (cases "enumerated_before k (fst p)")
    case True
    then show ?thesis by simp
  next
    case False
    then show ?thesis using Cons.IH by (simp add: insert_commute)
  qed
qed

lemma obj_insert_member: "p \<in> set (obj_insert kvs k v) \<Longrightarrow> p = (k, v) \<or> p \<in> set kvs"
  by (induction kvs) (auto split: if_splits)

lemma obj_set_keys: "fst ` set (obj_set kvs k v) = insert k (fst ` set kvs)"
proof (cases "k \<in> set (map fst kvs)")
  case True
  have "fst ` set (map (\<lambda>p. if fst p = k then (k, v) else p) kvs) = fst ` set kvs"
    by (induction kvs) auto
  with True show ?thesis by (auto simp: obj_set_def)
next
  case False
  then show ?thesis by (simp add: obj_set_def obj_insert_keys)
qed

lemma obj_set_member: "p \<in> set (obj_set kvs k v) \<Longrightarrow> p = (k, v) \<or> p \<in> set kvs"
  by (auto simp: obj_set_def dest: obj_insert_member split: if_splits)

lemma obj_set_subset: "set (obj_set kvs k v) \<subseteq> insert (k, v) (set kvs)"
  using obj_set_member by fastforce

lemma taggedUnion_loop_inv:
  assumes "taggedUnion_loop tag ts (length pre) idx tvs = Inr (idx', tvs')"
    and "fst ` set idx = fst ` set tvs"
    and "fst ` set tvs = (\<lambda>t. String_val (projr (getTagValue tag t))) ` set pre"
    and "\<forall>p\<in>set idx. snd p < length pre
            \<and> (\<exists>v. getTagValue tag (pre ! snd p) = Inr v \<and> String_val v = fst p)"
  shows "fst ` set idx' = fst ` set tvs'
    \<and> fst ` set tvs' = (\<lambda>t. String_val (projr (getTagValue tag t))) ` set (pre @ ts)
    \<and> (\<forall>p\<in>set idx'. snd p < length (pre @ ts)
            \<and> (\<exists>v. getTagValue tag ((pre @ ts) ! snd p) = Inr v \<and> String_val v = fst p))"
  using assms
proof (induction ts arbitrary: pre idx tvs)
  case Nil
  then show ?case by simp
next
  case (Cons t ts)
  from Cons.prems(1) obtain v where v: "getTagValue tag t = Inr v"
    by (cases "getTagValue tag t") auto
  let ?idx = "obj_set idx (String_val v) (length pre)"
  let ?tvs = "obj_set tvs (String_val v) VNull"
  have loop: "taggedUnion_loop tag ts (length (pre @ [t])) ?idx ?tvs = Inr (idx', tvs')"
    using Cons.prems(1) v by simp
  have k: "fst ` set ?idx = fst ` set ?tvs"
    using Cons.prems(2) by (simp add: obj_set_keys)
  have k2: "fst ` set ?tvs = (\<lambda>t. String_val (projr (getTagValue tag t))) ` set (pre @ [t])"
    using Cons.prems(3) v by (simp add: obj_set_keys)
  have inv: "\<forall>p\<in>set ?idx. snd p < length (pre @ [t])
            \<and> (\<exists>w. getTagValue tag ((pre @ [t]) ! snd p) = Inr w \<and> String_val w = fst p)"
  proof
    fix p assume "p \<in> set ?idx"
    then consider "p = (String_val v, length pre)" | "p \<in> set idx"
      using obj_set_subset [of idx "String_val v" "length pre"] by auto
    then show "snd p < length (pre @ [t])
            \<and> (\<exists>w. getTagValue tag ((pre @ [t]) ! snd p) = Inr w \<and> String_val w = fst p)"
    proof cases
      case 1
      then show ?thesis using v by simp
    next
      case 2
      then show ?thesis using Cons.prems(4) by (auto simp: nth_append)
    qed
  qed
  show ?case using Cons.IH [OF loop k k2 inv] by simp
qed

text \<open>
  C7 as stated fails for literals that are not strings. The members of
  \<open>taggedUnion('kind', [type({kind: literal(1)}), type({kind: literal(2)})])\<close> have the
  tag values 1 and 2, kept in the tables under the keys \<open>'1'\<close> and \<open>'2'\<close>. On
  \<open>{kind: 1}\<close> the discriminant is the literal of the first member, which accepts
  the input, yet validate returns the discriminant error. On \<open>{kind: '1'}\<close> the
  discriminant is no member's literal, yet validate calls the first member and
  returns that member's failure.
\<close>

theorem taggedUnion_number_tag_counterexample:
  "taggedUnion_loop ''kind''
      [interface [(''kind'', literal (VNum 1) ''1'')] ''T1'',
       interface [(''kind'', literal (VNum 2) ''2'')] ''T2''] 0 [] []
     = Inr ([(''1'', 0), (''2'', 1)], [(''1'', VNull), (''2'', VNull)])
   \<and> getTagValue ''kind'' (interface [(''kind'', literal (VNum 1) ''1'')] ''T1'') = Inr (VNum 1)
   \<and> get_prop (VObj [(''kind'', VNum 1)]) ''kind'' = VNum 1
   \<and> validate (interface [(''kind'', literal (VNum 1) ''1'')] ''T1'') (VObj [(''kind'', VNum 1)]) [] ''T1''
       = Inr (VObj [(''kind'', VNum 1)])
   \<and> validate (TaggedUnionType ''U'' ''kind''
         [interface [(''kind'', literal (VNum 1) ''1'')] ''T1'',
          interface [(''kind'', literal (VNum 2) ''2'')] ''T2'']
         [(''1'', 0), (''2'', 1)] (keyof [(''1'', VNull), (''2'', VNull)] ''K''))
       (VObj [(''kind'', VNum 1)]) [] ''U''
       = Inl (VError (VNum 1) '' '' ''U'' [VError (VNum 1) ''kind'' ''K'' []])
   \<and> validate (TaggedUnionType ''U'' ''kind''
         [interface [(''kind'', literal (VNum 1) ''1'')] ''T1'',
          interface [(''kind'', literal (VNum 2) ''2'')] ''T2'']
         [(''1'', 0), (''2'', 1)] (keyof [(''1'', VNull), (''2'', VNull)] ''K''))
       (VObj [(''kind'', VStr ''1'')]) [] ''U''
       = Inl (VError (VObj [(''kind'', VStr ''1'')]) [] ''T1'' [VError (VStr ''1'') ''kind'' ''1'' []])"
  by (simp add: interface_def literal_def keyof_def value_field_def object_kind_def get_prop_def
      member_at_def obj_set_def enumerated_before_def array_index_def digit_value_def
      String_int_def Let_def ev)

text \<open>
  C7, amended. For a descriptor that \<open>taggedUnion\<close> returns over members whose tag
  values are all strings (other than \<open>hasOwnProperty\<close> and \<open>__proto__\<close>, which the
  table of tag values cannot hold as keys), and a container input \<open>d\<close>. When
  \<open>d[tag]\<close> is no member's tag value, validate returns one error node with exactly
  one child, the failure of the discriminant field at key \<open>tag\<close>. When it is a
  member's tag value, validate returns what the \<open>validate\<close> of one member with that
  tag value returns; no other member takes part in the result.
\<close>

theorem taggedUnion_single_dispatch:
  fixes js :: "val \<Rightarrow> string" and nm :: string
  assumes "taggedUnion_loop tag types 0 [] [] = Inr (tagValue2Index, tagValues)"
    and "object_kind d"
    and "\<forall>t\<in>set types. \<exists>s. getTagValue tag t = Inr (VStr s)
            \<and> s \<noteq> ''hasOwnProperty'' \<and> s \<noteq> ''__proto__''"
  defines "T \<equiv> TaggedUnionType nm tag types tagValue2Index (keyof tagValues (keyof_name js tagValues))"
  shows "taggedUnion js tag types nm = Inr T
    \<and> (\<not> (\<exists>t\<in>set types. getTagValue tag t = Inr (get_prop d tag))
         \<longrightarrow> validate T d c decoder
               = Inl (VError (get_prop d tag) '' '' decoder
                        [VError (get_prop d tag) tag (keyof_name js tagValues) []]))
    \<and> ((\<exists>t\<in>set types. getTagValue tag t = Inr (get_prop d tag))
         \<longrightarrow> (\<exists>i<length types. getTagValue tag (types ! i) = Inr (get_prop d tag)
                \<and> validate T d c decoder = validate (types ! i) d c (name (types ! i))))"
proof -
  have inv: "fst ` set tagValue2Index = fst ` set tagValues
    \<and> fst ` set tagValues = (\<lambda>t. String_val (projr (getTagValue tag t))) ` set ([] @ types)
    \<and> (\<forall>p\<in>set tagValue2Index. snd p < length ([] @ types)
            \<and> (\<exists>v. getTagValue tag (([] @ types) ! snd p) = Inr v \<and> String_val v = fst p))"
    by (rule taggedUnion_loop_inv [of tag types "[]" "[]" "[]"]) (use assms(1) in simp_all)
  have str: "\<exists>s. getTagValue tag t = Inr (VStr s)" if "t \<in> set types" for t
    using assms(3) that by blast
  have keys: "s \<in> fst ` set tagValues \<longleftrightarrow> (\<exists>t\<in>set types. getTagValue tag t = Inr (VStr s))" for s
  proof
    assume "s \<in> fst ` set tagValues"
    with inv obtain t where t: "t \<in> set types" and s: "s = String_val (projr (getTagValue tag t))"
      by auto
    from str [OF t] obtain s' where "getTagValue tag t = Inr (VStr s')" by blast
    with s t show "\<exists>t\<in>set types. getTagValue tag t = Inr (VStr s)" by auto
  next
    assume "\<exists>t\<in>set types. getTagValue tag t = Inr (VStr s)"
    then obtain t where t: "t \<in> set types" and "getTagValue tag t = Inr (VStr s)" by blast
    then have "s = String_val (projr (getTagValue tag t))" by simp
    with t inv show "s \<in> fst ` set tagValues" by auto
  qed
  have 1: "taggedUnion js tag types nm = Inr T"
    using assms(1) by (simp add: taggedUnion_def T_def)
  have 2: "validate T d c decoder
               = Inl (VError (get_prop d tag) '' '' decoder
                        [VError (get_prop d tag) tag (keyof_name js tagValues) []])"
    if "\<not> (\<exists>t\<in>set types. getTagValue tag t = Inr (get_prop d tag))"
  proof -
    have "\<not> is_ty (KeyofType (keyof_name js tagValues) tagValues) (get_prop d tag)"
      using that keys by (auto split: val.splits)
    then show ?thesis
      using assms(2) by (simp add: T_def keyof_def guard_def failure_def)
  qed
  have 3: "\<exists>i<length types. getTagValue tag (types ! i) = Inr (get_prop d tag)
                \<and> validate T d c decoder = validate (types ! i) d c (name (types ! i))"
    if "\<exists>t\<in>set types. getTagValue tag t = Inr (get_prop d tag)"
  proof -
    from that obtain t where t: "t \<in> set types" and g: "getTagValue tag t = Inr (get_prop d tag)"
      by blast
    from str [OF t] g obtain s where s: "get_prop d tag = VStr s" by auto
    with t g keys have "s \<in> fst ` set tagValues" by auto
    with inv have "s \<in> fst ` set tagValue2Index" by simp
    then obtain i where mo: "map_of tagValue2Index s = Some i"
      by (cases "map_of tagValue2Index s") (auto simp: map_of_eq_None_iff)
    then have mem: "(s, i) \<in> set tagValue2Index" by (rule map_of_SomeD)
    with inv have i: "i < length types"
      and "\<exists>v. getTagValue tag (types ! i) = Inr v \<and> String_val v = s" by force+
    then obtain v where v: "getTagValue tag (types ! i) = Inr v" "String_val v = s" by blast
    from i have "types ! i \<in> set types" by simp
    from str [OF this] v have gi: "getTagValue tag (types ! i) = Inr (VStr s)" by auto
    have k: "is_ty (KeyofType (keyof_name js tagValues) tagValues) (VStr s)"
      using \<open>s \<in> fst ` set tagValues\<close> by simp
    have "validate T d c decoder = validate (types ! i) d c (name (types ! i))"
      using assms(2) s k mo i
      by (simp add: T_def keyof_def guard_def member_at_def)
    with i gi s show ?thesis by auto
  qed
  show ?thesis using 1 2 3 by blast
qed

theorem taggedUnion_single_dispatch_witness:
  "taggedUnion_loop ''kind''
      [interface [(''kind'', literal (VStr ''a'') ''A'')] ''TA'',
       interface [(''kind'', literal (VStr ''b'') ''B'')] ''TB''] 0 [] []
     = Inr ([(''a'', 0), (''b'', 1)], [(''a'', VNull), (''b'', VNull)])
   \<and> object_kind (VObj [(''kind'', VStr ''c'')])
   \<and> validate (TaggedUnionType ''U'' ''kind''
         [interface [(''kind'', literal (VStr ''a'') ''A'')] ''TA'',
          interface [(''kind'', literal (VStr ''b'') ''B'')] ''TB'']
         [(''a'', 0), (''b'', 1)]
         (keyof [(''a'', VNull), (''b'', VNull)]
            (keyof_name (\<lambda>v. ''J'') [(''a'', VNull), (''b'', VNull)])))
       (VObj [(''kind'', VStr ''c'')]) [] ''U''
     = Inl (VError (VStr ''c'') '' '' ''U''
              [VError (VStr ''c'') ''kind''
                 (keyof_name (\<lambda>v. ''J'') [(''a'', VNull), (''b'', VNull)]) []])
   \<and> object_kind (VObj [(''kind'', VStr ''b'')])
   \<and> (\<exists>i<length [interface [(''kind'', literal (VStr ''a'') ''A'')] ''TA'',
                      interface [(''kind'', literal (VStr ''b'') ''B'')] ''TB''].
         getTagValue ''kind''
              ([interface [(''kind'', literal (VStr ''a'') ''A'')] ''TA'',
                interface [(''kind'', literal (VStr ''b'') ''B'')] ''TB''] ! i)
           = Inr (get_prop (VObj [(''kind'', VStr ''b'')]) ''kind'')
         \<and> validate (TaggedUnionType ''U'' ''kind''
               [interface [(''kind'', literal (VStr ''a'') ''A'')] ''TA'',
                interface [(''kind'', literal (VStr ''b'') ''B'')] ''TB'']
               [(''a'', 0), (''b'', 1)]
               (keyof [(''a'', VNull), (''b'', VNull)]
                  (keyof_name (\<lambda>v. ''J'') [(''a'', VNull), (''b'', VNull)])))
             (VObj [(''kind'', VStr ''b'')]) [] ''U''
           = validate ([interface [(''kind'', literal (VStr ''a'') ''A'')] ''TA'',
                        interface [(''kind'', literal (VStr ''b'') ''B'')] ''TB''] ! i)
               (VObj [(''kind'', VStr ''b'')]) []
               (name ([interface [(''kind'', literal (VStr ''a'') ''A'')] ''TA'',
                       interface [(''kind'', literal (VStr ''b'') ''B'')] ''TB''] ! i)))"
proof -
  let ?types = "[interface [(''kind'', literal (VStr ''a'') ''A'')] ''TA'',
       interface [(''kind'', literal (VStr ''b'') ''B'')] ''TB'']"
  let ?d = "VObj [(''kind'', VStr ''c'')]"
  let ?d2 = "VObj [(''kind'', VStr ''b'')]"
  have a: "taggedUnion_loop ''kind'' ?types 0 [] []
     = Inr ([(''a'', 0), (''b'', 1)], [(''a'', VNull), (''b'', VNull)])"
    by (simp add: interface_def literal_def value_field_def obj_set_def enumerated_before_def
        array_index_def digit_value_def digit_char_def)
  have b: "object_kind ?d" and b2: "object_kind ?d2" by (simp_all add: object_kind_def)
  have s: "\<forall>t\<in>set ?types. \<exists>s. getTagValue ''kind'' t = Inr (VStr s)
            \<and> s \<noteq> ''hasOwnProperty'' \<and> s \<noteq> ''__proto__''"
    by (simp add: interface_def literal_def value_field_def)
  note t = taggedUnion_single_dispatch
    [OF a b s, where nm = "''U''" and js = "\<lambda>v. ''J''" and c = "[]" and decoder = "''U''"]
  note t2 = taggedUnion_single_dispatch
    [OF a b2 s, where nm = "''U''" and js = "\<lambda>v. ''J''" and c = "[]" and decoder = "''U''"]
  have h: "\<not> (\<exists>t\<in>set ?types. getTagValue ''kind'' t = Inr (get_prop ?d ''kind''))"
    by (simp add: get_prop_def interface_def literal_def value_field_def)
  have e: "get_prop ?d ''kind'' = VStr ''c''" by (simp add: get_prop_def)
  have r: "validate (TaggedUnionType ''U'' ''kind'' ?types [(''a'', 0), (''b'', 1)]
         (keyof [(''a'', VNull), (''b'', VNull)]
            (keyof_name (\<lambda>v. ''J'') [(''a'', VNull), (''b'', VNull)])))
       ?d [] ''U''
     = Inl (VError (get_prop ?d ''kind'') '' '' ''U''
              [VError (get_prop ?d ''kind'') ''kind''
                 (keyof_name (\<lambda>v. ''J'') [(''a'', VNull), (''b'', VNull)]) []])"
    by (rule mp [OF conjunct1 [OF conjunct2 [OF t]] h])
  have r': "validate (TaggedUnionType ''U'' ''kind'' ?types [(''a'', 0), (''b'', 1)]
         (keyof [(''a'', VNull), (''b'', VNull)]
            (keyof_name (\<lambda>v. ''J'') [(''a'', VNull), (''b'', VNull)])))
       ?d [] ''U''
     = Inl (VError (VStr ''c'') '' '' ''U''
              [VError (VStr ''c'') ''kind''
                 (keyof_name (\<lambda>v. ''J'') [(''a'', VNull), (''b'', VNull)]) []])"
    using r by (simp only: e)
  have h2: "\<exists>t\<in>set ?types. getTagValue ''kind'' t = Inr (get_prop ?d2 ''kind'')"
    by (simp add: get_prop_def interface_def literal_def value_field_def)
  note r2 = mp [OF conjunct2 [OF conjunct2 [OF t2]] h2]
  show ?thesis by (rule conjI [OF a conjI [OF b conjI [OF r' conjI [OF b2 r2]]]])
qed

section \<open>The container guard\<close>

lemma dictionary_loop_same_entries:
  "(\<forall>k\<in>set ks. fd (VStr k) k = Inr (VStr k) \<and> fc (get_prop o' k) k = Inr (get_prop o' k))
   \<Longrightarrow> dictionary_loop fd fc ks o' a changed errors
        = (foldl (\<lambda>a k. obj_set a k (get_prop o' k)) a ks,
           changed \<or> list_ex (\<lambda>k. get_prop o' k = VNaN) ks, errors)"
  by (induction ks arbitrary: a changed)
     (auto simp: Let_def strict_neq_def strict_eq_def)

lemma interface_validate_not_leaf:
  "object_kind m \<Longrightarrow> validate (InterfaceType n props) m c decoder \<noteq> Inl (VError v k n' [])"
  by (simp add: guard_def failures_def failure_def split: prod.splits)

lemma dictionary_validate_not_leaf:
  "object_kind m \<Longrightarrow> validate (DictionaryType n domain codomain) m c decoder \<noteq> Inl (VError v k n' [])"
  by (simp add: guard_def failures_def failure_def split: prod.splits)

lemma strict_validate_not_leaf:
  "object_kind m \<Longrightarrow> validate (strict props nm) m c decoder \<noteq> Inl (VError v k n' [])"
proof -
  assume m: "object_kind m"
  let ?loose = "validate (InterfaceType (getNameFromProps props) props) m c (getNameFromProps props)"
  show ?thesis
  proof (cases ?loose)
    case (Inl e)
    with interface_validate_not_leaf [OF m, of "getNameFromProps props" props c "getNameFromProps props"]
    show ?thesis by (simp add: strict_def interface_def)
  next
    case (Inr o')
    then show ?thesis
      by (simp add: strict_def interface_def Let_def failures_def failure_def)
  qed
qed

text \<open>
  C10. The container guard \<open>Dictionary.is\<close> holds exactly for arrays and objects, so
  arrays pass it: \<open>Dictionary\<close> and \<open>object\<close> decode an array to itself; no
  object-like combinator answers an array with the leaf failure of the guard
  (\<open>interface\<close>, \<open>partial\<close>, \<open>strict\<close> and \<open>dictionary\<close> go on to read the array's
  properties, and a tagged union goes on to read its discriminant); an interface
  that declares \<open>length: number\<close> accepts every array.
\<close>

theorem arrays_pass_the_container_guard:
  "is_ty AnyDictionaryType (VArr xs)
   \<and> (is_ty AnyDictionaryType m \<longleftrightarrow> (\<exists>ys. m = VArr ys) \<or> (\<exists>kvs. m = VObj kvs))
   \<and> decode AnyDictionaryType (VArr xs) = Inr (VArr xs)
   \<and> decode ObjectType (VArr xs) = Inr (VArr xs)
   \<and> is_ty (interface [(''length'', NumberType)] nm) (VArr xs)
   \<and> decode (interface [(''length'', NumberType)] nm) (VArr xs) = Inr (VArr xs)
   \<and> decode (partial [] nm) (VArr xs) = Inr (VArr xs)
   \<and> decode (dictionary AnyType AnyType nm) (VArr xs)
       = Inr (if list_ex (\<lambda>k. get_prop (VArr xs) k = VNaN) (Object_keys (VArr xs))
              then VObj (foldl (\<lambda>a k. obj_set a k (get_prop (VArr xs) k)) [] (Object_keys (VArr xs)))
              else VArr xs)
   \<and> decode (strict [(''length'', NumberType)] nm) (VArr []) = Inr (VArr [])
   \<and> validate (interface props nm) (VArr xs) c decoder \<noteq> Inl (VError v k n [])
   \<and> validate (partial props nm) (VArr xs) c decoder \<noteq> Inl (VError v k n [])
   \<and> validate (strict props nm) (VArr xs) c decoder \<noteq> Inl (VError v k n [])
   \<and> validate (dictionary domain codomain nm) (VArr xs) c decoder \<noteq> Inl (VError v k n [])
   \<and> validate (TaggedUnionType nm tag types tagValue2Index TagValue) (VArr xs) c decoder
       = (case validate TagValue (get_prop (VArr xs) tag) tag (name TagValue) of
            Inl e \<Rightarrow> failure (get_prop (VArr xs) tag) '' '' decoder [e]
          | Inr tagValue \<Rightarrow>
              (case member_at types tagValue2Index tagValue of
                 Some type \<Rightarrow> validate type (VArr xs) c (name type)
               | None \<Rightarrow> failure (VArr xs) c ''TypeError'' []))"
proof -
  have k: "object_kind (VArr xs)" by (simp add: object_kind_def)
  have 1: "is_ty AnyDictionaryType (VArr xs)" using k by simp
  have 2: "is_ty AnyDictionaryType m \<longleftrightarrow> (\<exists>ys. m = VArr ys) \<or> (\<exists>kvs. m = VObj kvs)"
    by (cases m) (simp_all add: object_kind_def)
  have 3: "decode AnyDictionaryType (VArr xs) = Inr (VArr xs)"
    and 4: "decode ObjectType (VArr xs) = Inr (VArr xs)"
    using k by (simp_all add: decode_def guard_def)
  have 5: "is_ty (interface [(''length'', NumberType)] nm) (VArr xs)"
    using k by (simp add: interface_def get_prop_def)
  have 6: "decode (interface [(''length'', NumberType)] nm) (VArr xs) = Inr (VArr xs)"
    using k by (simp add: decode_def interface_def get_prop_def guard_def strict_neq_def strict_eq_def)
  have 7: "decode (partial [] nm) (VArr xs) = Inr (VArr xs)"
    using k by (simp add: decode_def partial_def interface_def guard_def)
  have 8: "decode (dictionary AnyType AnyType nm) (VArr xs)
       = Inr (if list_ex (\<lambda>k. get_prop (VArr xs) k = VNaN) (Object_keys (VArr xs))
              then VObj (foldl (\<lambda>a k. obj_set a k (get_prop (VArr xs) k)) [] (Object_keys (VArr xs)))
              else VArr xs)"
  proof -
    let ?l = "dictionary_loop (\<lambda>k c'. validate AnyType k c' (name AnyType))
                (\<lambda>ok c'. validate AnyType ok c' (name AnyType)) (Object_keys (VArr xs)) (VArr xs) [] False []"
    have "?l = (foldl (\<lambda>a k. obj_set a k (get_prop (VArr xs) k)) [] (Object_keys (VArr xs)),
                False \<or> list_ex (\<lambda>k. get_prop (VArr xs) k = VNaN) (Object_keys (VArr xs)), [])"
      by (rule dictionary_loop_same_entries) (simp add: success_def)
    then show ?thesis using k by (simp add: decode_def dictionary_def guard_def)
  qed
  have 9: "decode (strict [(''length'', NumberType)] nm) (VArr []) = Inr (VArr [])"
    by (simp add: decode_def strict_def interface_def get_prop_def guard_def object_kind_def
        getOwnPropertyNames_def strict_neq_def strict_eq_def)
  have 10: "validate (interface props nm) (VArr xs) c decoder \<noteq> Inl (VError v k n [])"
    unfolding interface_def by (rule interface_validate_not_leaf [OF k])
  have 11: "validate (partial props nm) (VArr xs) c decoder \<noteq> Inl (VError v k n [])"
    using interface_validate_not_leaf [OF k] by (simp add: partial_def interface_def Let_def)
  have 12: "validate (strict props nm) (VArr xs) c decoder \<noteq> Inl (VError v k n [])"
    by (rule strict_validate_not_leaf [OF k])
  have 13: "validate (dictionary domain codomain nm) (VArr xs) c decoder \<noteq> Inl (VError v k n [])"
    unfolding dictionary_def by (rule dictionary_validate_not_leaf [OF k])
  have 14: "validate (TaggedUnionType nm tag types tagValue2Index TagValue) (VArr xs) c decoder
       = (case validate TagValue (get_prop (VArr xs) tag) tag (name TagValue) of
            Inl e \<Rightarrow> failure (get_prop (VArr xs) tag) '' '' decoder [e]
          | Inr tagValue \<Rightarrow>
              (case member_at types tagValue2Index tagValue of
                 Some type \<Rightarrow> validate type (VArr xs) c (name type)
               | None \<Rightarrow> failure (VArr xs) c ''TypeError'' []))"
    using k by (simp add: guard_def)
  show ?thesis using 1 2 3 4 5 6 7 8 9 10 11 12 13 14 by blast
qed

section \<open>Properties of the array combinator with references\<close>

lemma array_loop_ref_unchanged:
  "(\<forall>i\<in>set is. f (st ! xs ! i) i = Inr (st ! xs ! i))
   \<Longrightarrow> array_loop_ref f xs is a st errors = (a, st, errors)"
  by (induction "is") (simp_all add: Let_def)

lemma array_validate_ref_unchanged:
  assumes "p < length st" and "\<forall>i<length (st ! p). f (st ! p ! i) i = Inr (st ! p ! i)"
  shows "array_validate_ref f st (RRef p) c decoder = (Inr (RRef p), st)"
proof -
  have "array_loop_ref f p [0..<length (st ! p)] p st [] = (p, st, [])"
    by (rule array_loop_ref_unchanged) (use assms(2) in simp)
  then show ?thesis using assms(1) by (simp add: array_validate_ref_def isArray_ref_def)
qed

text \<open>
  C5, at the input \<open>array(withDefault(t.number, 0)).decode([null])\<close>, the array
  \<open>[null]\<close> being at address 0 of a store that holds nothing else. The element
  validates to \<open>0\<close>, which differs from \<open>null\<close>. The validator returns the reference
  of the input, address 0, not a new array, and the input array is \<open>[0]\<close>
  afterwards. The loop of \<open>tuple\<close>, on the same input and member, returns the new
  array at address 1 and leaves the input as it was.
\<close>

theorem array_changed_element_overwrites_input:
  "array_validate_ref withDefault_number_ref [[RNull]] (RRef 0) [] ''Array<number>''
     = (Inr (RRef 0), [[RNum 0]])
   \<and> tuple_loop_ref [withDefault_number_ref] 0 0 0 [[RNull]] []
     = (1, [[RNull], [RNum 0]], [])"
  by (simp add: array_validate_ref_def isArray_ref_def withDefault_number_ref_def Let_def)

section \<open>Round trip\<close>

text \<open>
  C1, at the descriptor \<open>partial({a: never})\<close> and the value \<open>{a: undefined}\<close>. The
  comment on class \<open>Type\<close> states the law \<open>T.decode(T.serialize(x)) = right(x)\<close>. The
  descriptor accepts the value; its encoder is not \<open>identity\<close> (the encoder of
  \<open>never\<close> is not), it leaves out a property whose value is \<open>undefined\<close> and
  returns \<open>{}\<close>; \<open>decode\<close> of \<open>{}\<close> succeeds with \<open>{}\<close>, an object without the
  own property \<open>a\<close> of the value that was encoded.
\<close>

theorem partial_round_trip_loses_property:
  "is_ty (partial [(''a'', NeverType)] ''P'') (VObj [(''a'', VUndefined)])
   \<and> encode (partial [(''a'', NeverType)] ''P'') (VObj [(''a'', VUndefined)]) = Inr (VObj [])
   \<and> decode (partial [(''a'', NeverType)] ''P'') (VObj []) = Inr (VObj [])
   \<and> getOwnPropertyNames (VObj []) \<noteq> getOwnPropertyNames (VObj [(''a'', VUndefined)])"
  by (simp add: partial_def interface_def union_def decode_def object_kind_def get_prop_def
      getOwnPropertyNames_def Let_def ev)

end
